theory Spec2Isabelle
  imports Complex_Main "HOL-Library.Word"
begin

unbundle bit_operations_syntax

section \<open>The telemetry simulator and its minimal MQTT publisher\<close>

text \<open>
  A shallow embedding of the simulator's source file (the MQTT publisher class
  \<open>SimpleMqttPublisher\<close>, the two wire codecs \<open>encodeUtf8String\<close> and
  \<open>encodeRemainingLength\<close>, and the metric generator \<open>publishMetric\<close>).

  Conventions of the embedding:
  \<^item> a Node \<open>Buffer\<close> is a list of bytes (\<open>8 word\<close>);
  \<^item> a JavaScript number that holds a length or a byte value is a \<open>nat\<close>; the
    source only ever passes non-negative integers far below \<open>2^53\<close> there, where
    \<open>%\<close>, \<open>Math.floor(x / 128)\<close>, \<open>>>\<close>, \<open>&\<close> and \<open>|\<close> are exact;
  \<^item> a JavaScript string is represented by its UTF-8 byte sequence (a HOL \<open>string\<close>
    is a list of 8-bit characters), so \<open>Buffer.from(value, "utf8")\<close>, which belongs to
    the runtime and not to the repository, is the byte-wise conversion;
  \<^item> a JavaScript number that holds a metric value is a \<open>real\<close>: rounding,
    infinities and NaN of IEEE doubles are outside the model;
  \<^item> \<open>Math.random()\<close> reads the next element of an explicit sequence of draws.
\<close>

subsection \<open>Buffers\<close>

type_synonym byte = "8 word"
type_synonym Buffer = "byte list"

text \<open>\<open>Buffer.from(numbers)\<close>: every element is reduced to one byte.\<close>

definition Buffer_from :: "nat list \<Rightarrow> Buffer" where
  "Buffer_from ns = map word_of_nat ns"

text \<open>\<open>Buffer.from(value, "utf8")\<close> on the UTF-8 representation of the string.\<close>

definition Buffer_from_utf8 :: "string \<Rightarrow> Buffer" where
  "Buffer_from_utf8 value = map (\<lambda>c. word_of_nat (of_char c)) value"

subsection \<open>\<open>encodeUtf8String\<close>\<close>

definition encodeUtf8String :: "string \<Rightarrow> Buffer" where
  "encodeUtf8String value =
     (let stringBuf = Buffer_from_utf8 value;
          len = Buffer_from [drop_bit 8 (length stringBuf) AND 0xff, length stringBuf AND 0xff]
      in len @ stringBuf)"

subsection \<open>\<open>encodeRemainingLength\<close>\<close>

text \<open>
  The \<open>do ... while (length > 0)\<close> loop, with the array \<open>bytes\<close> as accumulator: one
  call of the function is one run of the loop body.
\<close>

function encodeRemainingLength_loop :: "nat \<Rightarrow> nat list \<Rightarrow> nat list" where
  "encodeRemainingLength_loop len bytes =
     (if len div 128 > 0
      then encodeRemainingLength_loop (len div 128) (bytes @ [(len mod 128) OR 0x80])
      else bytes @ [len mod 128])"
  by pat_completeness auto
termination
  by (relation "measure fst") auto

definition encodeRemainingLength :: "nat \<Rightarrow> nat list" where
  "encodeRemainingLength len = encodeRemainingLength_loop len []"

text \<open>
  Modelled from the spec: the decoder of the variable-length integer, which the
  publish-only source does not contain. It reverses the encoder: the low seven bits of
  each byte are the next base-128 digit, least significant first, and the top bit says
  that another byte follows. It reads the field from the front of a byte sequence and
  returns the value with the bytes after the field; it fails when the sequence ends
  inside the field.
\<close>

fun decodeRemainingLength :: "nat list \<Rightarrow> (nat \<times> nat list) option" where
  "decodeRemainingLength [] = None"
| "decodeRemainingLength (b # bs) =
     (if b AND 0x80 \<noteq> 0
      then (case decodeRemainingLength bs of
              None \<Rightarrow> None
            | Some (v, rest) \<Rightarrow> Some ((b AND 0x7f) + 128 * v, rest))
      else Some (b AND 0x7f, bs))"


subsection \<open>Errors, promises and sockets\<close>

datatype error =
    NotConnected          \<comment> \<open>\<open>Error("MQTT publisher not connected")\<close>\<close>
  | BrokerRejected        \<comment> \<open>\<open>Error("MQTT broker rejected connection")\<close>\<close>
  | SocketError string    \<comment> \<open>the \<open>ErrnoException\<close> of a socket error event\<close>
  | TypeError             \<comment> \<open>a property read on \<open>undefined\<close>\<close>

text \<open>A promise settles once: \<open>resolve\<close> and \<open>reject\<close> on a settled promise do nothing.\<close>

datatype promise = Pending | Fulfilled | Rejected error

text \<open>
  What the model keeps of a \<open>net.Socket\<close>: where it connects to, the buffers handed to
  \<open>write\<close> (oldest first), whether \<open>end()\<close> was called, whether its close event has been
  emitted, which of the two \<open>once\<close> listeners are still registered, and the promise
  whose \<open>resolve\<close> and \<open>reject\<close> its listeners have captured.
\<close>

record Socket =
  port :: nat
  host :: string
  written :: "Buffer list"
  ended :: bool
  closed :: bool
  onceConnect :: bool
  onceError :: bool
  handshake :: nat

record URL =
  hostname :: string
  url_port :: "nat option"   \<comment> \<open>\<open>None\<close> is the empty port string\<close>

record SimpleMqttPublisher =
  socket :: "nat option"
  url :: URL
  clientId :: string
  isReady :: bool
  connectPromise :: "nat option"

text \<open>
  The publisher object together with the objects it refers to: sockets and promises are
  referred to by their position in the two stores, and \<open>console\<close> holds what
  \<open>console.error\<close> was given.
\<close>

record runtime =
  this :: SimpleMqttPublisher
  sockets :: "Socket list"
  promises :: "promise list"
  console :: "error list"

text \<open>The default broker address, \<open>mqtt://broker:1883\<close>, parsed.\<close>

definition MQTT_URL :: URL where
  "MQTT_URL = \<lparr>hostname = ''broker'', url_port = Some 1883\<rparr>"

definition KEEP_ALIVE_SECONDS :: nat where
  "KEEP_ALIVE_SECONDS = 60"

definition new_SimpleMqttPublisher :: "URL \<Rightarrow> string \<Rightarrow> runtime" where
  "new_SimpleMqttPublisher brokerUrl cid =
     \<lparr>this = \<lparr>socket = None, url = brokerUrl, clientId = cid, isReady = False,
               connectPromise = None\<rparr>,
      sockets = [], promises = [], console = []\<rparr>"

definition resolve :: "nat \<Rightarrow> runtime \<Rightarrow> runtime" where
  "resolve p w =
     (if p < length (promises w) \<and> promises w ! p = Pending
      then w\<lparr>promises := (promises w)[p := Fulfilled]\<rparr> else w)"

definition reject :: "nat \<Rightarrow> error \<Rightarrow> runtime \<Rightarrow> runtime" where
  "reject p err w =
     (if p < length (promises w) \<and> promises w ! p = Pending
      then w\<lparr>promises := (promises w)[p := Rejected err]\<rparr> else w)"

definition socket_write :: "nat \<Rightarrow> Buffer \<Rightarrow> runtime \<Rightarrow> runtime" where
  "socket_write s buf w =
     (if s < length (sockets w)
      then w\<lparr>sockets := (sockets w)[s := (sockets w ! s)\<lparr>written := written (sockets w ! s) @ [buf]\<rparr>]\<rparr>
      else w)"

definition socket_end :: "nat \<Rightarrow> runtime \<Rightarrow> runtime" where
  "socket_end s w =
     (if s < length (sockets w)
      then w\<lparr>sockets := (sockets w)[s := (sockets w ! s)\<lparr>ended := True\<rparr>]\<rparr>
      else w)"

subsection \<open>\<open>SimpleMqttPublisher\<close>\<close>

definition buildConnectPacket :: "SimpleMqttPublisher \<Rightarrow> Buffer" where
  "buildConnectPacket pub =
     (let protocolName = encodeUtf8String ''MQTT'';
          protocolLevel = Buffer_from [0x04];
          connectFlags = Buffer_from [0x02];
          keepAlive = Buffer_from [drop_bit 8 KEEP_ALIVE_SECONDS AND 0xff, KEEP_ALIVE_SECONDS AND 0xff];
          clientId = encodeUtf8String (clientId pub);
          variableHeader = protocolName @ protocolLevel @ connectFlags @ keepAlive;
          payload = clientId;
          remainingLength = encodeRemainingLength (length variableHeader + length payload)
      in Buffer_from (0x10 # remainingLength) @ variableHeader @ payload)"

text \<open>
  \<open>connect()\<close>. The result is the promise the caller waits on (the \<open>async\<close> wrapper
  adopts the outcome of the promise it returns) and the runtime after the call. When a
  new attempt starts, the promise and the socket are created and the five listeners are
  registered on the socket; they run later, as the events below.
\<close>

definition connect :: "runtime \<Rightarrow> nat \<times> runtime" where
  "connect w =
     (case connectPromise (this w) of
        Some p \<Rightarrow> (p, w)
      | None \<Rightarrow>
          (let p = length (promises w);
               s = length (sockets w);
               sock = \<lparr>port = (case url_port (url (this w)) of None \<Rightarrow> 1883 | Some n \<Rightarrow> n),
                       host = hostname (url (this w)),
                       written = [], ended = False, closed = False,
                       onceConnect = True, onceError = True, handshake = p\<rparr>
           in (p, w\<lparr>this := (this w)\<lparr>socket := Some s, connectPromise := Some p\<rparr>,
                     sockets := sockets w @ [sock],
                     promises := promises w @ [Pending]\<rparr>)))"

text \<open>The listener of \<open>once("connect")\<close> on socket \<open>s\<close>: it writes to \<open>this.socket\<close>.\<close>

definition on_connect :: "nat \<Rightarrow> runtime \<Rightarrow> runtime" where
  "on_connect s w =
     (if s < length (sockets w) \<and> onceConnect (sockets w ! s)
      then (let w1 = w\<lparr>sockets := (sockets w)[s := (sockets w ! s)\<lparr>onceConnect := False\<rparr>]\<rparr>;
                connectPacket = buildConnectPacket (this w1)
            in (case socket (this w1) of
                  None \<Rightarrow> w1
                | Some t \<Rightarrow> socket_write t connectPacket w1))
      else w)"

text \<open>The two error listeners of socket \<open>s\<close>, in the order of their registration.\<close>

definition on_error :: "nat \<Rightarrow> error \<Rightarrow> runtime \<Rightarrow> runtime" where
  "on_error s err w =
     (if s < length (sockets w)
      then (let w1 = (if onceError (sockets w ! s)
                      then reject (handshake (sockets w ! s)) err
                             (w\<lparr>sockets := (sockets w)[s := (sockets w ! s)\<lparr>onceError := False\<rparr>]\<rparr>)
                      else w)
            in w1\<lparr>console := console w1 @ [err]\<rparr>)
      else w)"

text \<open>The data listener of socket \<open>s\<close>.\<close>

definition on_data :: "nat \<Rightarrow> Buffer \<Rightarrow> runtime \<Rightarrow> runtime" where
  "on_data s chunk w =
     (if s < length (sockets w)
      then (if \<not> isReady (this w) \<and> length chunk \<ge> 4
            then (if chunk ! 0 = 0x20 \<and> chunk ! 1 \<ge> 0x02 \<and> chunk ! 3 = 0x00
                  then resolve (handshake (sockets w ! s)) (w\<lparr>this := (this w)\<lparr>isReady := True\<rparr>\<rparr>)
                  else reject (handshake (sockets w ! s)) BrokerRejected w)
            else w)
      else w)"

text \<open>The close listener of socket \<open>s\<close>; the socket emits nothing after its close event.\<close>

definition on_close :: "nat \<Rightarrow> runtime \<Rightarrow> runtime" where
  "on_close s w =
     (if s < length (sockets w)
      then w\<lparr>this := (this w)\<lparr>isReady := False, connectPromise := None\<rparr>,
             sockets := (sockets w)[s := (sockets w ! s)\<lparr>closed := True\<rparr>]\<rparr>
      else w)"

datatype QoS = QoS0 | QoS1 | QoS2

fun QoS_number :: "QoS \<Rightarrow> nat" where
  "QoS_number QoS0 = 0"
| "QoS_number QoS1 = 1"
| "QoS_number QoS2 = 2"

record PublishOptions =
  retain :: "bool option"
  qos :: "QoS option"

text \<open>The frame that \<open>publish\<close> assembles between its guard and its write.\<close>

definition publish_packet :: "string \<Rightarrow> Buffer \<Rightarrow> PublishOptions \<Rightarrow> Buffer" where
  "publish_packet topic payload options =
     (let retainFlag = (if retain options = Some True then 0x01 else 0x00);
          qosFlag = (case qos options of
                       None \<Rightarrow> 0
                     | Some q \<Rightarrow> if QoS_number q \<noteq> 0 then push_bit 1 (QoS_number q) else 0);
          fixedHeader = 0x30 OR retainFlag OR qosFlag;
          topicBuffer = encodeUtf8String topic;
          remainingLength = length topicBuffer + length payload
      in Buffer_from (fixedHeader # encodeRemainingLength remainingLength) @ topicBuffer @ payload)"

definition publish :: "string \<Rightarrow> Buffer \<Rightarrow> PublishOptions \<Rightarrow> runtime \<Rightarrow> (error + unit) \<times> runtime" where
  "publish topic payload options w =
     (case socket (this w) of
        None \<Rightarrow> (Inl NotConnected, w)
      | Some s \<Rightarrow>
          if \<not> isReady (this w) then (Inl NotConnected, w)
          else (Inr (), socket_write s (publish_packet topic payload options) w))"

definition end_connection :: "runtime \<Rightarrow> runtime" where
  "end_connection w = (case socket (this w) of None \<Rightarrow> w | Some s \<Rightarrow> socket_end s w)"

text \<open>
  The runtimes the program can be in: the object as constructed, then any sequence of
  calls of the three methods and of events of a socket that exists and has not emitted
  its close event.
\<close>

datatype event = Connect | Error error | Data Buffer | Close

fun emit :: "nat \<Rightarrow> event \<Rightarrow> runtime \<Rightarrow> runtime" where
  "emit s Connect w = on_connect s w"
| "emit s (Error err) w = on_error s err w"
| "emit s (Data chunk) w = on_data s chunk w"
| "emit s Close w = on_close s w"

inductive reachable :: "runtime \<Rightarrow> bool" where
  constructed: "reachable (new_SimpleMqttPublisher brokerUrl cid)"
| call_connect: "reachable w \<Longrightarrow> reachable (snd (connect w))"
| call_publish: "reachable w \<Longrightarrow> reachable (snd (publish topic payload options w))"
| call_end: "reachable w \<Longrightarrow> reachable (end_connection w)"
| socket_event: "reachable w \<Longrightarrow> s < length (sockets w) \<Longrightarrow> \<not> closed (sockets w ! s)
                   \<Longrightarrow> reachable (emit s ev w)"

text \<open>
  \<open>Connecting w s p\<close>: the attempt with promise \<open>p\<close> on socket \<open>s\<close> is in flight.
\<close>

definition Connecting :: "runtime \<Rightarrow> nat \<Rightarrow> nat \<Rightarrow> bool" where
  "Connecting w s p \<longleftrightarrow>
     connectPromise (this w) = Some p \<and> socket (this w) = Some s \<and>
     s < length (sockets w) \<and> handshake (sockets w ! s) = p \<and>
     p < length (promises w) \<and> promises w ! p = Pending \<and> \<not> isReady (this w)"


text \<open>
  What every reachable runtime satisfies: a socket that has not emitted its close event
  is the newest one, it is \<open>this.socket\<close>, and \<open>this.connectPromise\<close> is the promise
  its listeners hold; and while \<open>isReady\<close> is set the newest socket is such a socket.
\<close>

definition connection_inv :: "runtime \<Rightarrow> bool" where
  "connection_inv w \<longleftrightarrow>
     (\<forall>i < length (sockets w). \<not> closed (sockets w ! i) \<longrightarrow>
        Suc i = length (sockets w) \<and> socket (this w) = Some i \<and>
        connectPromise (this w) = Some (handshake (sockets w ! i)))
   \<and> (isReady (this w) \<longrightarrow> sockets w \<noteq> [] \<and> \<not> closed (last (sockets w)))"

text \<open>
  Sequences of method calls and socket events, run in order.
\<close>

datatype step = CallConnect | CallPublish string Buffer PublishOptions | CallEnd | Emit nat event

fun do_step :: "step \<Rightarrow> runtime \<Rightarrow> runtime" where
  "do_step CallConnect w = snd (connect w)"
| "do_step (CallPublish topic payload options) w = snd (publish topic payload options w)"
| "do_step CallEnd w = end_connection w"
| "do_step (Emit s ev) w = emit s ev w"

fun run_steps :: "step list \<Rightarrow> runtime \<Rightarrow> runtime" where
  "run_steps [] w = w"
| "run_steps (st # rest) w = run_steps rest (do_step st w)"

fun is_close :: "step \<Rightarrow> bool" where
  "is_close (Emit s Close) = True"
| "is_close st = False"

subsection \<open>The metric generator\<close>

text \<open>
  An override generator is a function of the current value that may call
  \<open>Math.random()\<close>: it is given the sequence of draws and the number of draws made so
  far, and returns its result with the new number of draws.
\<close>

record MetricDefinition =
  id' :: string
  label :: string
  unit' :: string
  min' :: real
  max' :: real
  smoothing :: real
  frequency :: real
  precision :: "nat option"
  generator :: "(real \<Rightarrow> (nat \<Rightarrow> real) \<Rightarrow> nat \<Rightarrow> real \<times> nat) option"

record MetricState =
  value' :: real
  target :: real

text \<open>
  The state of the simulator process: the table \<open>metricStates\<close>, the publisher, the
  draws of \<open>Math.random()\<close> (\<open>draws w i\<close> is the result of call number \<open>i\<close>, \<open>drawn\<close>
  counts the calls made), the topic prefix read from the environment, the clock read by
  \<open>Date.now()\<close>, and the runtime's serialisation of a payload object
  (\<open>Buffer.from(JSON.stringify(payload))\<close>, given the metric, the value and the time).
\<close>

record simulator =
  metricStates :: "string \<rightharpoonup> MetricState"
  publisher :: runtime
  draws :: "nat \<Rightarrow> real"
  drawn :: nat
  MQTT_TOPIC_PREFIX :: string
  Date_now :: nat
  JSON_payload :: "MetricDefinition \<Rightarrow> real \<Rightarrow> nat \<Rightarrow> Buffer"

definition Math_random :: "simulator \<Rightarrow> real \<times> simulator" where
  "Math_random w = (draws w (drawn w), w\<lparr>drawn := Suc (drawn w)\<rparr>)"

definition clamp :: "real \<Rightarrow> real \<Rightarrow> real \<Rightarrow> real" where
  "clamp v mn mx = min (max v mn) mx"

definition randomInRange :: "real \<Rightarrow> real \<Rightarrow> simulator \<Rightarrow> real \<times> simulator" where
  "randomInRange mn mx w = (let (u, w1) = Math_random w in (u * (mx - mn) + mn, w1))"

definition defaultGenerator :: "MetricDefinition \<Rightarrow> real \<Rightarrow> simulator \<Rightarrow> (error + real) \<times> simulator" where
  "defaultGenerator metric current w =
     (case metricStates w (id' metric) of
        None \<Rightarrow> (Inl TypeError, w)
      | Some state \<Rightarrow>
          (let towards = target state - current;
               (u, w1) = Math_random w;
               noise = (u - 0.5) * smoothing metric * (max' metric - min' metric) * 0.01
           in (Inr (current + towards * smoothing metric + noise), w1)))"

definition publishMetric :: "MetricDefinition \<Rightarrow> simulator \<Rightarrow> (error + unit) \<times> simulator" where
  "publishMetric metric w =
     (case metricStates w (id' metric) of
        None \<Rightarrow> (Inl TypeError, w)
      | Some state \<Rightarrow>
          (case (case generator metric of
                   Some g \<Rightarrow> (let (v, k) = g (value' state) (draws w) (drawn w)
                              in (Inr v, w\<lparr>drawn := k\<rparr>))
                 | None \<Rightarrow> defaultGenerator metric (value' state) w) of
             (Inl e, w1) \<Rightarrow> (Inl e, w1)
           | (Inr nextValue, w1) \<Rightarrow>
               (let v = clamp nextValue (min' metric) (max' metric);
                    w2 = w1\<lparr>metricStates := (metricStates w1)(id' metric \<mapsto> state\<lparr>value' := v\<rparr>)\<rparr>;
                    w3 = (if \<bar>v - target state\<bar> < smoothing metric * 5
                          then (let (t, w') = randomInRange (min' metric) (max' metric) w2
                                in w'\<lparr>metricStates :=
                                       (metricStates w')(id' metric \<mapsto> \<lparr>value' = v, target = t\<rparr>)\<rparr>)
                          else w2);
                    payload = JSON_payload w3 metric v (Date_now w3);
                    topic = MQTT_TOPIC_PREFIX w3 @ ''/'' @ id' metric;
                    (r, pub) = publish topic payload \<lparr>retain = Some True, qos = Some QoS0\<rparr> (publisher w3)
                in (r, w3\<lparr>publisher := pub\<rparr>))))"

text \<open>
  The initial table: \<open>metrics.map\<close> builds one entry per metric, drawing a target for
  each in turn, and \<open>Object.fromEntries\<close> stores them in order, a later entry replacing
  an earlier one of the same key.
\<close>

fun initial_entries :: "MetricDefinition list \<Rightarrow> simulator \<Rightarrow> (string \<times> MetricState) list \<times> simulator" where
  "initial_entries [] w = ([], w)"
| "initial_entries (metric # ms) w =
     (let (t, w1) = randomInRange (min' metric) (max' metric) w;
          (es, w2) = initial_entries ms w1
      in ((id' metric, \<lparr>value' = min' metric, target = t\<rparr>) # es, w2))"

definition Object_fromEntries :: "('k \<times> 'v) list \<Rightarrow> ('k \<rightharpoonup> 'v)" where
  "Object_fromEntries es = foldl (\<lambda>obj (k, v). obj(k \<mapsto> v)) Map.empty es"

definition initial_metricStates :: "MetricDefinition list \<Rightarrow> simulator \<Rightarrow> simulator" where
  "initial_metricStates ms w =
     (let (es, w1) = initial_entries ms w in w1\<lparr>metricStates := Object_fromEntries es\<rparr>)"

text \<open>
  A run of timer callbacks, one metric per callback in the order the timers fire. A
  callback that throws is an uncaught exception, which ends the process: the run stops
  in the state reached.
\<close>

fun run_timers :: "MetricDefinition list \<Rightarrow> simulator \<Rightarrow> simulator" where
  "run_timers [] w = w"
| "run_timers (metric # rest) w =
     (case publishMetric metric w of
        (Inl e, w1) \<Rightarrow> w1
      | (Inr u, w1) \<Rightarrow> run_timers rest w1)"

text \<open>The metric table of the source.\<close>

definition degC :: string where
  "degC = [CHR 0xC2, CHR 0xB0, CHR ''C'']"

definition plain :: "string \<Rightarrow> string \<Rightarrow> string \<Rightarrow> real \<Rightarrow> real \<Rightarrow> real \<Rightarrow> real \<Rightarrow> nat option \<Rightarrow> MetricDefinition" where
  "plain i l u mn mx sm fr pr =
     \<lparr>id' = i, label = l, unit' = u, min' = mn, max' = mx, smoothing = sm, frequency = fr,
      precision = pr, generator = None\<rparr>"

definition metrics :: "MetricDefinition list" where
  "metrics =
    [plain ''vehicleSpeed'' ''Speed'' ''km/h'' 0 240 0.2 20 None,
     plain ''engineRpm'' ''RPM'' ''rpm'' 700 7200 0.18 30 None,
     plain ''coolantTemp'' ''Coolant'' degC 70 110 0.05 5 (Some 1),
     plain ''oilTemp'' ''Oil Temp'' degC 60 130 0.04 5 (Some 1),
     (plain ''fuelLevel'' ''Fuel'' ''%'' 5 100 0.01 1 (Some 1))
       \<lparr>generator := Some (\<lambda>v d k. (max 0 (v - d k * 0.1), Suc k))\<rparr>,
     plain ''batteryVoltage'' ''Battery'' ''V'' 12.2 14.4 0.03 2 (Some 2),
     plain ''instantConsumption'' ''Cons.'' ''L/100km'' 3 25 0.2 15 (Some 1),
     plain ''avgConsumption'' ''Avg Cons.'' ''L/100km'' 4 12 0.01 1 (Some 1),
     plain ''boostPressure'' ''Boost'' ''kPa'' 95 190 0.25 25 (Some 1),
     plain ''oilPressure'' ''Oil Press'' ''kPa'' 200 600 0.1 10 None,
     plain ''intakeTemp'' ''Intake'' degC 20 75 0.06 5 (Some 1),
     plain ''ambientTemp'' ''Ambient'' degC (-10) 45 0.02 0.5 (Some 1),
     plain ''steeringAngle'' ''Steer'' [CHR 0xC2, CHR 0xB0] (-540) 540 0.35 30 (Some 0),
     plain ''brakePressure'' ''Brake'' ''%'' 0 100 0.4 30 None,
     plain ''throttle'' ''Throttle'' ''%'' 0 100 0.3 30 None,
     (plain ''gear'' ''Gear'' [] 1 8 1 2 None)
       \<lparr>generator := Some (\<lambda>v d k. (of_int \<lfloor>d k * 8\<rfloor> + 1, Suc k))\<rparr>,
     (plain ''odometer'' ''Odo'' ''km'' 0 200000 0.00001 1 None)
       \<lparr>generator := Some (\<lambda>v d k. (v + d k * 0.05, Suc k))\<rparr>,
     (plain ''trip'' ''Trip'' ''km'' 0 500 0.0002 2 None)
       \<lparr>generator := Some (\<lambda>v d k. (v + d k * 0.02, Suc k))\<rparr>,
     plain ''tirePressureFrontLeft'' ''FL Tire'' ''psi'' 30 38 0.05 2 (Some 1),
     plain ''tirePressureFrontRight'' ''FR Tire'' ''psi'' 30 38 0.05 2 (Some 1)]"



text \<open>
  A simulator for the examples: the handshake has succeeded on the first socket, every
  \<open>Math.random()\<close> returns one half, and every payload serialises to \<open>{}\<close>.
\<close>

definition example_simulator :: simulator where
  "example_simulator =
     \<lparr>metricStates = Map.empty,
      publisher = on_data 0 [0x20, 0x02, 0x00, 0x00]
                    (on_connect 0 (snd (connect (new_SimpleMqttPublisher MQTT_URL ''sim-1'')))),
      draws = (\<lambda>i. 1 / 2), drawn = 0, MQTT_TOPIC_PREFIX = ''hmi/metrics'', Date_now = 0,
      JSON_payload = (\<lambda>metric v t. [0x7B, 0x7D])\<rparr>"

text \<open>
  Two more simulators for the examples, with coolantTemp at value 70 and target 90:
  in one every \<open>Math.random()\<close> returns 0, in the other one quarter.
\<close>

definition low_draw_simulator :: simulator where
  "low_draw_simulator =
     example_simulator\<lparr>metricStates := [''coolantTemp'' \<mapsto> \<lparr>value' = 70, target = 90\<rparr>],
                        draws := (\<lambda>i. 0)\<rparr>"

definition quarter_draw_simulator :: simulator where
  "quarter_draw_simulator =
     example_simulator\<lparr>metricStates := [''coolantTemp'' \<mapsto> \<lparr>value' = 70, target = 90\<rparr>],
                        draws := (\<lambda>i. 1 / 4)\<rparr>"

text \<open>
  \<open>in_range metric w\<close>: the metric has a state entry, and its value and its target lie
  between the metric's bounds.
\<close>

definition in_range :: "MetricDefinition \<Rightarrow> simulator \<Rightarrow> bool" where
  "in_range metric w \<longleftrightarrow>
     (\<exists>st. metricStates w (id' metric) = Some st
        \<and> min' metric \<le> value' st \<and> value' st \<le> max' metric
        \<and> min' metric \<le> target st \<and> target st \<le> max' metric)"

section \<open>Properties of the wire codecs\<close>

subsection \<open>The bit operations of the encoders, as arithmetic\<close>

declare encodeRemainingLength_loop.simps [simp del]

lemma and_7f: "(n::nat) AND 0x7f = n mod 128"
proof -
  have "n AND mask 7 = take_bit 7 n" by (simp add: take_bit_eq_mask)
  then show ?thesis by (simp add: mask_eq_exp_minus_1 take_bit_eq_mod)
qed

lemma and_80: "((n::nat) AND 0x80 \<noteq> 0) = odd (n div 128)"
  using and_exp_eq_0_iff_not_bit[of n 7] by (simp add: bit_iff_odd)

lemma or_80: "(n mod 128 :: nat) OR 0x80 = n mod 128 + 128"
proof -
  have "\<not> bit (n mod 2 ^ 7) 7"
    by (simp add: bit_iff_odd)
  then have "(n mod 128) AND 2 ^ 7 = 0"
    using and_exp_eq_0_iff_not_bit[of "n mod 128" 7] by simp
  then have "n mod 128 + 2 ^ 7 = (n mod 128) OR 2 ^ 7"
    by (rule disjunctive_add_eq_or)
  then show ?thesis by simp
qed

lemma top_clear: "(n mod 128 :: nat) AND 0x80 = 0"
  using and_80[of "n mod 128"] by simp

lemma top_set: "(n mod 128 + 128 :: nat) AND 0x80 \<noteq> 0"
  using and_80[of "n mod 128 + 128"] by simp

subsection \<open>The variable-length integer\<close>

lemma loop_acc: "encodeRemainingLength_loop n bs = bs @ encodeRemainingLength_loop n []"
proof (induction n arbitrary: bs rule: less_induct)
  case (less n)
  show ?case
  proof (cases "n div 128 > 0")
    case True
    then have lt: "n div 128 < n" by simp
    have "encodeRemainingLength_loop n bs
            = encodeRemainingLength_loop (n div 128) (bs @ [(n mod 128) OR 0x80])"
      using True by (subst encodeRemainingLength_loop.simps) simp
    also have "\<dots> = (bs @ [(n mod 128) OR 0x80]) @ encodeRemainingLength_loop (n div 128) []"
      by (rule less.IH[OF lt])
    also have "\<dots> = bs @ encodeRemainingLength_loop (n div 128) ([] @ [(n mod 128) OR 0x80])"
      using less.IH[OF lt, of "[(n mod 128) OR 0x80]"] by simp
    also have "\<dots> = bs @ encodeRemainingLength_loop n []"
      using True by (subst (2) encodeRemainingLength_loop.simps) simp
    finally show ?thesis .
  next
    case False
    then show ?thesis by (simp add: encodeRemainingLength_loop.simps)
  qed
qed

lemma enc_unfold:
  "encodeRemainingLength n =
     (if n div 128 > 0 then (n mod 128 + 128) # encodeRemainingLength (n div 128)
      else [n mod 128])"
proof (cases "n div 128 > 0")
  case True
  have "encodeRemainingLength_loop n [] = encodeRemainingLength_loop (n div 128) [n mod 128 + 128]"
    using True by (subst encodeRemainingLength_loop.simps) (simp add: or_80)
  also have "\<dots> = [n mod 128 + 128] @ encodeRemainingLength_loop (n div 128) []"
    by (rule loop_acc)
  finally show ?thesis using True by (simp add: encodeRemainingLength_def)
next
  case False
  then show ?thesis
    by (simp add: encodeRemainingLength_def encodeRemainingLength_loop.simps)
qed

lemma enc_nonempty: "encodeRemainingLength n \<noteq> []"
  by (subst enc_unfold) simp

lemma enc_decode: "decodeRemainingLength (encodeRemainingLength n @ rest) = Some (n, rest)"
proof (induction n rule: less_induct)
  case (less n)
  show ?case
  proof (cases "n div 128 > 0")
    case True
    then have lt: "n div 128 < n" by simp
    have odd: "odd ((n mod 128 + 128) div 128)" by simp
    show ?thesis
      using True less.IH[OF lt] top_set[of n]
      by (subst enc_unfold) (simp add: and_7f)
  next
    case False
    then have "n < 128" by simp
    then show ?thesis
      using False top_clear[of n] by (subst enc_unfold) (simp add: and_7f)
  qed
qed

lemma enc_digit:
  "i < length (encodeRemainingLength n) \<Longrightarrow>
     encodeRemainingLength n ! i mod 128 = (n div 128 ^ i) mod 128
   \<and> encodeRemainingLength n ! i < 256
   \<and> (encodeRemainingLength n ! i AND 0x80 \<noteq> 0 \<longleftrightarrow> Suc i < length (encodeRemainingLength n))"
proof (induction n arbitrary: i rule: less_induct)
  case (less n)
  show ?case
  proof (cases "n div 128 > 0")
    case True
    then have lt: "n div 128 < n" by simp
    have u: "encodeRemainingLength n = (n mod 128 + 128) # encodeRemainingLength (n div 128)"
      using True by (subst enc_unfold) simp
    show ?thesis
    proof (cases i)
      case 0
      have "n mod 128 < 128" by simp
      then have "n mod 128 + 128 < 256" by linarith
      then show ?thesis using 0 enc_nonempty[of "n div 128"] top_set[of n] by (simp add: u)
    next
      case (Suc j)
      then have "j < length (encodeRemainingLength (n div 128))"
        using less.prems u by simp
      from less.IH[OF lt this] show ?thesis
        using Suc by (simp add: u div_mult2_eq)
    qed
  next
    case False
    then have u: "encodeRemainingLength n = [n mod 128]"
      by (subst enc_unfold) simp
    have "n mod 128 < 128" by simp
    then have "n mod 128 < 256" by linarith
    then show ?thesis using less.prems False top_clear[of n] by (simp add: u)
  qed
qed

lemma enc_length: "n < 128 ^ k \<Longrightarrow> 0 < k \<Longrightarrow> length (encodeRemainingLength n) \<le> k"
proof (induction k arbitrary: n)
  case 0
  then show ?case by simp
next
  case (Suc k)
  show ?case
  proof (cases "n div 128 > 0")
    case True
    then have k: "0 < k" using Suc.prems by (cases k) auto
    have "n div 128 < 128 ^ k" using Suc.prems by (simp add: less_mult_imp_div_less)
    from Suc.IH[OF this k] show ?thesis using True by (subst enc_unfold) simp
  next
    case False
    then show ?thesis by (subst enc_unfold) simp
  qed
qed


lemma enc_bytes: "x \<in> set (encodeRemainingLength n) \<Longrightarrow> x < 256"
  using enc_digit[of _ n] by (auto simp: in_set_conv_nth)

text \<open>
  Claim C2. For every length \<open>L\<close> up to 268,435,455 the encoder emits at least one byte
  and at most four; byte \<open>i\<close> fits in a byte and carries in its low seven bits the
  \<open>i\<close>-th base-128 digit of \<open>L\<close>, and its top bit is set exactly when another byte
  follows; decoding the encoding of \<open>L\<close> yields \<open>L\<close> with nothing left over; and 0, 127,
  128 and 16384 encode to \<open>[0x00]\<close>, \<open>[0x7F]\<close>, \<open>[0x80, 0x01]\<close> and
  \<open>[0x80, 0x80, 0x01]\<close>.
\<close>

theorem encodeRemainingLength_roundtrip:
  assumes "L \<le> 268435455"
  shows "encodeRemainingLength L \<noteq> []
     \<and> length (encodeRemainingLength L) \<le> 4
     \<and> (\<forall>i < length (encodeRemainingLength L).
           encodeRemainingLength L ! i < 256
         \<and> (encodeRemainingLength L ! i) AND 0x7f = (L div 128 ^ i) mod 128
         \<and> ((encodeRemainingLength L ! i) AND 0x80 \<noteq> 0 \<longleftrightarrow> Suc i < length (encodeRemainingLength L)))
     \<and> decodeRemainingLength (encodeRemainingLength L) = Some (L, [])
     \<and> encodeRemainingLength 0 = [0x00]
     \<and> encodeRemainingLength 127 = [0x7F]
     \<and> encodeRemainingLength 128 = [0x80, 0x01]
     \<and> encodeRemainingLength 16384 = [0x80, 0x80, 0x01]"
proof -
  have "L < 128 ^ 4" using assms by simp
  then have len: "length (encodeRemainingLength L) \<le> 4"
    by (rule enc_length) simp
  have dec: "decodeRemainingLength (encodeRemainingLength L) = Some (L, [])"
    using enc_decode[of L "[]"] by simp
  have digits: "\<forall>i < length (encodeRemainingLength L).
           encodeRemainingLength L ! i < 256
         \<and> (encodeRemainingLength L ! i) AND 0x7f = (L div 128 ^ i) mod 128
         \<and> ((encodeRemainingLength L ! i) AND 0x80 \<noteq> 0 \<longleftrightarrow> Suc i < length (encodeRemainingLength L))"
    using enc_digit[of _ L] by (simp add: and_7f)
  have ex: "encodeRemainingLength 0 = [0x00]" "encodeRemainingLength 127 = [0x7F]"
    "encodeRemainingLength 128 = [0x80, 0x01]" "encodeRemainingLength 16384 = [0x80, 0x80, 0x01]"
    by (simp_all add: enc_unfold)
  show ?thesis using len dec digits ex enc_nonempty[of L] by blast
qed

theorem encodeRemainingLength_roundtrip_witness:
  "(2097152::nat) \<le> 268435455
   \<and> encodeRemainingLength 2097152 = [0x80, 0x80, 0x80, 0x01]
   \<and> decodeRemainingLength (encodeRemainingLength 2097152) = Some (2097152, [])"
  using encodeRemainingLength_roundtrip[of 2097152] by (simp add: enc_unfold)

subsection \<open>The length-prefixed string field\<close>

lemma utf8_length: "length (Buffer_from_utf8 v) = length v"
  by (simp add: Buffer_from_utf8_def)

lemma encodeUtf8String_eq:
  "encodeUtf8String v =
     [word_of_nat (length v div 256 mod 256), word_of_nat (length v mod 256)] @ Buffer_from_utf8 v"
proof -
  have a: "drop_bit 8 (length v) AND 0xff = length v div 256 mod 256"
    using take_bit_eq_mask[of 8 "drop_bit 8 (length v)"]
    by (simp add: mask_eq_exp_minus_1 take_bit_eq_mod drop_bit_eq_div)
  have b: "length v AND 0xff = length v mod 256"
    using take_bit_eq_mask[of 8 "length v"]
    by (simp add: mask_eq_exp_minus_1 take_bit_eq_mod)
  show ?thesis
    by (simp add: encodeUtf8String_def Let_def utf8_length Buffer_from_def a b)
qed

text \<open>
  The encoder has no check of the length: for a string of 65,536 bytes it returns a
  field, whose two length bytes are both zero.
\<close>

theorem encodeUtf8String_long_counterexample:
  "length (Buffer_from_utf8 (replicate 65536 CHR ''a'')) = 65536
   \<and> encodeUtf8String (replicate 65536 CHR ''a'') = 0x00 # 0x00 # replicate 65536 0x61"
  by (simp add: encodeUtf8String_eq Buffer_from_utf8_def)

text \<open>
  Claim C5, amended. The string-field encoder never fails: for every string it returns
  two length bytes followed by the UTF-8 byte sequence, the two bytes being the
  big-endian form of the UTF-8 length modulo 65,536; for a string of at most 65,535
  UTF-8 bytes they are the big-endian form of the length itself.
\<close>

theorem encodeUtf8String_layout:
  "encodeUtf8String v =
     [word_of_nat (length (Buffer_from_utf8 v) div 256 mod 256),
      word_of_nat (length (Buffer_from_utf8 v) mod 256)] @ Buffer_from_utf8 v
   \<and> (length (Buffer_from_utf8 v) \<le> 65535 \<longrightarrow>
        256 * unat (encodeUtf8String v ! 0) + unat (encodeUtf8String v ! 1)
          = length (Buffer_from_utf8 v))"
proof -
  have "256 * unat (word_of_nat (length v div 256 mod 256) :: byte) + unat (word_of_nat (length v mod 256) :: byte) = length v"
    if "length v \<le> 65535"
  proof -
    have "length v div 256 < 256" using that by simp
    then have "length v div 256 mod 256 = length v div 256" by simp
    moreover have "unat (word_of_nat (length v div 256) :: byte) = length v div 256"
      using \<open>length v div 256 < 256\<close> by (simp add: unat_of_nat)
    moreover have "unat (word_of_nat (length v mod 256) :: byte) = length v mod 256"
      by (simp add: unat_of_nat)
    ultimately show ?thesis by simp
  qed
  then show ?thesis
    by (simp add: encodeUtf8String_eq utf8_length)
qed

theorem encodeUtf8String_layout_witness:
  "length (Buffer_from_utf8 ''MQTT'') \<le> 65535
   \<and> encodeUtf8String ''MQTT'' = [0x00, 0x04, 0x4D, 0x51, 0x54, 0x54]
   \<and> 256 * unat (encodeUtf8String ''MQTT'' ! 0) + unat (encodeUtf8String ''MQTT'' ! 1) = 4"
  using encodeUtf8String_layout[of "''MQTT''"]
  by (simp add: Buffer_from_utf8_def)




section \<open>Properties of the publisher\<close>

subsection \<open>Publishing\<close>

text \<open>
  Claim C4. For every topic, payload and options, \<open>publish\<close> called while there is no
  socket or while the connection is not ready throws the not-connected error and leaves
  the runtime as it was: nothing is written to any socket.
\<close>

theorem publish_before_ready:
  "socket (this w) = None \<or> \<not> isReady (this w) \<Longrightarrow>
     publish topic payload options w = (Inl NotConnected, w)"
  by (auto simp: publish_def split: option.splits)

theorem publish_before_ready_witness:
  "socket (this (new_SimpleMqttPublisher MQTT_URL ''sim-1'')) = None
   \<and> publish ''hmi/metrics/gear'' [0x7B, 0x7D] \<lparr>retain = Some True, qos = Some QoS0\<rparr>
        (new_SimpleMqttPublisher MQTT_URL ''sim-1'')
      = (Inl NotConnected, new_SimpleMqttPublisher MQTT_URL ''sim-1'')
   \<and> socket (this (snd (connect (new_SimpleMqttPublisher MQTT_URL ''sim-1'')))) = Some 0
   \<and> \<not> isReady (this (snd (connect (new_SimpleMqttPublisher MQTT_URL ''sim-1''))))
   \<and> publish ''hmi/metrics/gear'' [0x7B, 0x7D] \<lparr>retain = Some True, qos = Some QoS0\<rparr>
        (snd (connect (new_SimpleMqttPublisher MQTT_URL ''sim-1'')))
      = (Inl NotConnected, snd (connect (new_SimpleMqttPublisher MQTT_URL ''sim-1'')))"
  using publish_before_ready[of "new_SimpleMqttPublisher MQTT_URL ''sim-1''"]
        publish_before_ready[of "snd (connect (new_SimpleMqttPublisher MQTT_URL ''sim-1''))"]
  by (simp add: new_SimpleMqttPublisher_def connect_def Let_def)

lemma enc_unat: "map unat (Buffer_from (encodeRemainingLength n)) = encodeRemainingLength n"
proof -
  have "unat (word_of_nat x :: byte) = x" if "x \<in> set (encodeRemainingLength n)" for x
    using enc_bytes[OF that] by (simp add: unat_of_nat)
  then show ?thesis
    by (simp add: Buffer_from_def map_idI)
qed

lemma publish_packet_eq:
  "publish_packet topic payload options =
     hd (publish_packet topic payload options)
       # Buffer_from (encodeRemainingLength (length (encodeUtf8String topic) + length payload))
       @ encodeUtf8String topic @ payload"
  by (simp add: publish_packet_def Let_def Buffer_from_def)

lemma publish_packet_header:
  "retain options = Some True \<Longrightarrow> qos options = Some QoS0 \<Longrightarrow>
     hd (publish_packet topic payload options) = 0x31"
  by (simp add: publish_packet_def Let_def Buffer_from_def)

text \<open>
  Claim C1. On a ready connection \<open>publish\<close> writes one frame to the socket, for every
  topic, payload and options (so for every QoS value): the frame is one header byte,
  then the remaining-length bytes, then the topic field, then the raw payload, with
  nothing in between; the remaining-length bytes decode to the length of the topic
  field plus the length of the payload, and what follows them is the topic field and
  the payload; with \<open>retain\<close> true and QoS 0 the header byte is \<open>0x31\<close>.
\<close>

theorem publish_frame_layout:
  assumes "socket (this w) = Some s" and "isReady (this w)"
  shows "publish topic payload options w
           = (Inr (), socket_write s (publish_packet topic payload options) w)
       \<and> publish_packet topic payload options
           = hd (publish_packet topic payload options)
               # Buffer_from (encodeRemainingLength (length (encodeUtf8String topic) + length payload))
               @ encodeUtf8String topic @ payload
       \<and> decodeRemainingLength (map unat (tl (publish_packet topic payload options)))
           = Some (length (encodeUtf8String topic) + length payload,
                   map unat (encodeUtf8String topic @ payload))
       \<and> (retain options = Some True \<and> qos options = Some QoS0 \<longrightarrow>
            hd (publish_packet topic payload options) = 0x31)"
proof -
  have a: "publish topic payload options w
           = (Inr (), socket_write s (publish_packet topic payload options) w)"
    using assms by (simp add: publish_def)
  have "tl (publish_packet topic payload options)
          = Buffer_from (encodeRemainingLength (length (encodeUtf8String topic) + length payload))
               @ encodeUtf8String topic @ payload"
    by (subst publish_packet_eq) simp
  then have c: "decodeRemainingLength (map unat (tl (publish_packet topic payload options)))
           = Some (length (encodeUtf8String topic) + length payload,
                   map unat (encodeUtf8String topic @ payload))"
    using enc_decode[of "length (encodeUtf8String topic) + length payload"
                        "map unat (encodeUtf8String topic @ payload)"]
    by (simp add: enc_unat)
  show ?thesis
    using a c publish_packet_eq[of topic payload options] publish_packet_header[of options topic payload]
    by blast
qed


theorem publish_frame_layout_witness:
  "socket (this (on_data 0 [0x20, 0x02, 0x00, 0x00] (snd (connect (new_SimpleMqttPublisher MQTT_URL ''sim-1''))))) = Some 0
   \<and> isReady (this (on_data 0 [0x20, 0x02, 0x00, 0x00] (snd (connect (new_SimpleMqttPublisher MQTT_URL ''sim-1'')))))
   \<and> publish_packet ''hmi/metrics/gear'' [0x7B, 0x7D] \<lparr>retain = Some True, qos = Some QoS0\<rparr>
       = [0x31, 0x14, 0x00, 0x10, 0x68, 0x6D, 0x69, 0x2F, 0x6D, 0x65, 0x74, 0x72, 0x69, 0x63, 0x73,
          0x2F, 0x67, 0x65, 0x61, 0x72, 0x7B, 0x7D]
   \<and> decodeRemainingLength (map unat (tl (publish_packet ''hmi/metrics/gear'' [0x7B, 0x7D]
          \<lparr>retain = Some True, qos = Some QoS0\<rparr>)))
       = Some (20, map unat (encodeUtf8String ''hmi/metrics/gear'' @ [0x7B, 0x7D]))"
  using publish_frame_layout[of "on_data 0 [0x20, 0x02, 0x00, 0x00] (snd (connect (new_SimpleMqttPublisher MQTT_URL ''sim-1'')))" 0
          "''hmi/metrics/gear''" "[0x7B, 0x7D]" "\<lparr>retain = Some True, qos = Some QoS0\<rparr>"]
  by (simp add: new_SimpleMqttPublisher_def connect_def on_data_def resolve_def Let_def
        publish_packet_def encodeUtf8String_eq Buffer_from_utf8_def Buffer_from_def enc_unfold)

subsection \<open>The handshake\<close>

lemma connect_starts:
  "connectPromise (this w) = None \<Longrightarrow> \<not> isReady (this w) \<Longrightarrow>
     Connecting (snd (connect w)) (length (sockets w)) (length (promises w))"
  by (simp add: connect_def Connecting_def Let_def nth_append)

text \<open>
  Until a chunk of four or more bytes arrives the attempt stays in flight: a shorter
  chunk is ignored, and the connect event only writes the connection request.
\<close>

lemma short_chunk_ignored: "length chunk < 4 \<Longrightarrow> on_data s chunk w = w"
  by (simp add: on_data_def)

lemma Connecting_on_connect: "Connecting w s p \<Longrightarrow> Connecting (on_connect t w) s p"
  by (auto simp: Connecting_def on_connect_def socket_write_def Let_def nth_list_update
           split: option.splits)

text \<open>
  Claim C3. While an attempt is in flight (its promise pending, the connection not
  ready), a chunk of four or more bytes decides it: with byte 0 equal to \<open>0x20\<close>,
  byte 1 at least 2 and byte 3 zero the connection becomes ready and the promise of
  \<open>connect()\<close> is fulfilled; with any of the three wrong, byte 3 nonzero among them,
  the promise is rejected with the broker-rejection error and the connection stays not
  ready.
\<close>

theorem handshake_outcome:
  assumes "Connecting w s p" and "length chunk \<ge> 4"
  shows "(chunk ! 0 = 0x20 \<and> chunk ! 1 \<ge> 0x02 \<and> chunk ! 3 = 0x00 \<longrightarrow>
            isReady (this (on_data s chunk w)) \<and> promises (on_data s chunk w) ! p = Fulfilled)
       \<and> (\<not> (chunk ! 0 = 0x20 \<and> chunk ! 1 \<ge> 0x02 \<and> chunk ! 3 = 0x00) \<longrightarrow>
            \<not> isReady (this (on_data s chunk w))
          \<and> promises (on_data s chunk w) ! p = Rejected BrokerRejected)"
  using assms by (simp add: Connecting_def on_data_def resolve_def reject_def)

theorem handshake_outcome_witness:
  "Connecting (on_connect 0 (snd (connect (new_SimpleMqttPublisher MQTT_URL ''sim-1'')))) 0 0
   \<and> isReady (this (on_data 0 [0x20, 0x02, 0x00, 0x00]
        (on_connect 0 (snd (connect (new_SimpleMqttPublisher MQTT_URL ''sim-1''))))))
   \<and> promises (on_data 0 [0x20, 0x02, 0x00, 0x00]
        (on_connect 0 (snd (connect (new_SimpleMqttPublisher MQTT_URL ''sim-1''))))) ! 0 = Fulfilled
   \<and> \<not> isReady (this (on_data 0 [0x20, 0x02, 0x00, 0x05]
        (on_connect 0 (snd (connect (new_SimpleMqttPublisher MQTT_URL ''sim-1''))))))
   \<and> promises (on_data 0 [0x20, 0x02, 0x00, 0x05]
        (on_connect 0 (snd (connect (new_SimpleMqttPublisher MQTT_URL ''sim-1''))))) ! 0
       = Rejected BrokerRejected"
proof -
  have c: "Connecting (on_connect 0 (snd (connect (new_SimpleMqttPublisher MQTT_URL ''sim-1'')))) 0 0"
    by (simp add: new_SimpleMqttPublisher_def connect_def on_connect_def socket_write_def
          Connecting_def Let_def)
  show ?thesis
    using c handshake_outcome[OF c, of "[0x20, 0x02, 0x00, 0x00]"]
          handshake_outcome[OF c, of "[0x20, 0x02, 0x00, 0x05]"]
    by simp
qed

text \<open>
  After a rejected handshake the pending handle is still in place: a later
  \<open>connect()\<close> returns the rejected promise and changes nothing.
\<close>

theorem handshake_failure_counterexample:
  "connectPromise (this (on_data 0 [0x20, 0x02, 0x00, 0x05]
      (on_connect 0 (snd (connect (new_SimpleMqttPublisher MQTT_URL ''sim-1'')))))) = Some 0
   \<and> promises (on_data 0 [0x20, 0x02, 0x00, 0x05]
      (on_connect 0 (snd (connect (new_SimpleMqttPublisher MQTT_URL ''sim-1''))))) ! 0
       = Rejected BrokerRejected
   \<and> connect (on_data 0 [0x20, 0x02, 0x00, 0x05]
      (on_connect 0 (snd (connect (new_SimpleMqttPublisher MQTT_URL ''sim-1'')))))
       = (0, on_data 0 [0x20, 0x02, 0x00, 0x05]
      (on_connect 0 (snd (connect (new_SimpleMqttPublisher MQTT_URL ''sim-1'')))))"
  by (simp add: new_SimpleMqttPublisher_def connect_def on_connect_def socket_write_def
        on_data_def reject_def Let_def)

text \<open>
  A promise that is rejected stays as it is, and the methods and listeners other than
  the close listener leave the handle \<open>connectPromise\<close> alone once it is set.
\<close>

lemma resolve_settled:
  assumes "p < length (promises w)" and "promises w ! p = Rejected e"
  shows "promises (resolve q w) ! p = Rejected e
       \<and> length (promises (resolve q w)) = length (promises w)
       \<and> this (resolve q w) = this w \<and> sockets (resolve q w) = sockets w"
  using assms by (cases "q = p") (simp_all add: resolve_def)

lemma reject_settled:
  assumes "p < length (promises w)" and "promises w ! p = Rejected e"
  shows "promises (reject q err w) ! p = Rejected e
       \<and> length (promises (reject q err w)) = length (promises w)
       \<and> this (reject q err w) = this w \<and> sockets (reject q err w) = sockets w"
  using assms by (cases "q = p") (simp_all add: reject_def)

lemma socket_write_fields:
  "this (socket_write s buf w) = this w \<and> promises (socket_write s buf w) = promises w
   \<and> length (sockets (socket_write s buf w)) = length (sockets w)"
  by (simp add: socket_write_def)

lemma socket_end_fields:
  "this (socket_end s w) = this w \<and> promises (socket_end s w) = promises w
   \<and> length (sockets (socket_end s w)) = length (sockets w)"
  by (simp add: socket_end_def)

lemma on_connect_fields:
  "this (on_connect s w) = this w \<and> promises (on_connect s w) = promises w
   \<and> length (sockets (on_connect s w)) = length (sockets w)"
  by (simp add: on_connect_def Let_def socket_write_fields split: option.splits)

lemma step_keeps_stale:
  assumes "connectPromise (this w) = Some p" and "p < length (promises w)"
    and "promises w ! p = Rejected e" and "\<not> is_close st"
  shows "connectPromise (this (do_step st w)) = Some p
       \<and> promises (do_step st w) ! p = Rejected e
       \<and> length (promises (do_step st w)) = length (promises w)
       \<and> length (sockets (do_step st w)) = length (sockets w)"
proof (cases st)
  case CallConnect
  then show ?thesis using assms by (simp add: connect_def)
next
  case (CallPublish topic payload options)
  then show ?thesis
    using assms by (simp add: publish_def socket_write_fields split: option.splits)
next
  case CallEnd
  then show ?thesis
    using assms by (simp add: end_connection_def socket_end_fields split: option.splits)
next
  case (Emit s ev)
  show ?thesis
  proof (cases ev)
    case Connect
    then show ?thesis using Emit assms by (simp add: on_connect_fields)
  next
    case (Error err)
    have "p < length (promises (w\<lparr>sockets := (sockets w)[s := (sockets w ! s)\<lparr>onceError := False\<rparr>]\<rparr>))"
         "promises (w\<lparr>sockets := (sockets w)[s := (sockets w ! s)\<lparr>onceError := False\<rparr>]\<rparr>) ! p = Rejected e"
      using assms by simp_all
    from reject_settled[OF this, of "handshake (sockets w ! s)" err]
    show ?thesis using Emit Error assms by (simp add: on_error_def Let_def)
  next
    case (Data chunk)
    have "p < length (promises (w\<lparr>this := (this w)\<lparr>isReady := True\<rparr>\<rparr>))"
         "promises (w\<lparr>this := (this w)\<lparr>isReady := True\<rparr>\<rparr>) ! p = Rejected e"
      using assms by simp_all
    from resolve_settled[OF this, of "handshake (sockets w ! s)"]
         reject_settled[OF assms(2,3), of "handshake (sockets w ! s)" BrokerRejected]
    show ?thesis using Emit Data assms by (simp add: on_data_def)
  next
    case Close
    then show ?thesis using Emit assms(4) by simp
  qed
qed

lemma run_keeps_stale:
  assumes "\<forall>st \<in> set steps. \<not> is_close st"
  shows "connectPromise (this w) = Some p \<Longrightarrow> p < length (promises w) \<Longrightarrow>
         promises w ! p = Rejected e \<Longrightarrow>
           connectPromise (this (run_steps steps w)) = Some p
         \<and> promises (run_steps steps w) ! p = Rejected e
         \<and> length (promises (run_steps steps w)) = length (promises w)
         \<and> length (sockets (run_steps steps w)) = length (sockets w)"
  using assms
proof (induction steps arbitrary: w)
  case Nil
  then show ?case by simp
next
  case (Cons st rest)
  have nc: "\<not> is_close st" using Cons.prems(4) by simp
  note s = step_keeps_stale[OF Cons.prems(1,2,3) nc]
  have "connectPromise (this (run_steps rest (do_step st w))) = Some p
         \<and> promises (run_steps rest (do_step st w)) ! p = Rejected e
         \<and> length (promises (run_steps rest (do_step st w))) = length (promises (do_step st w))
         \<and> length (sockets (run_steps rest (do_step st w))) = length (sockets (do_step st w))"
    using s Cons.prems(2,4) by (intro Cons.IH) simp_all
  then show ?case using s by simp
qed

lemma step_keeps_clear:
  assumes "connectPromise (this w) = None" and "st \<noteq> CallConnect"
  shows "connectPromise (this (do_step st w)) = None"
proof (cases st)
  case CallConnect
  then show ?thesis using assms(2) by simp
next
  case (CallPublish topic payload options)
  then show ?thesis
    using assms by (simp add: publish_def socket_write_fields split: option.splits)
next
  case CallEnd
  then show ?thesis
    using assms by (simp add: end_connection_def socket_end_fields split: option.splits)
next
  case (Emit s ev)
  then show ?thesis
    using assms
    by (cases ev)
       (simp_all add: on_connect_fields on_error_def on_data_def on_close_def resolve_def
          reject_def Let_def)
qed

lemma step_promises_length:
  assumes "st \<noteq> CallConnect"
  shows "length (promises (do_step st w)) = length (promises w)"
proof (cases st)
  case CallConnect
  then show ?thesis using assms by simp
next
  case (CallPublish topic payload options)
  then show ?thesis
    by (simp add: publish_def socket_write_fields split: option.splits)
next
  case CallEnd
  then show ?thesis
    by (simp add: end_connection_def socket_end_fields split: option.splits)
next
  case (Emit s ev)
  then show ?thesis
    by (cases ev)
       (simp_all add: on_connect_fields on_error_def on_data_def on_close_def resolve_def
          reject_def Let_def)
qed

lemma run_keeps_clear:
  "CallConnect \<notin> set steps \<Longrightarrow> connectPromise (this w) = None \<Longrightarrow>
     connectPromise (this (run_steps steps w)) = None
   \<and> length (promises (run_steps steps w)) = length (promises w)"
proof (induction steps arbitrary: w)
  case Nil
  then show ?case by simp
next
  case (Cons st rest)
  have n: "st \<noteq> CallConnect" "CallConnect \<notin> set rest"
    using Cons.prems(1) by auto
  have "connectPromise (this (do_step st w)) = None"
    using Cons.prems(2) n(1) by (rule step_keeps_clear)
  from Cons.IH[OF n(2) this] show ?case
    using step_promises_length[OF n(1), of w] by simp
qed

lemma connect_fresh:
  assumes "connectPromise (this w) = None"
  shows "fst (connect w) = length (promises w)"
    and "promises (snd (connect w)) ! fst (connect w) = Pending"
    and "connectPromise (this (snd (connect w))) = Some (fst (connect w))"
    and "socket (this (snd (connect w))) = Some (length (sockets w))"
    and "length (sockets (snd (connect w))) = Suc (length (sockets w))"
  using assms by (simp_all add: connect_def Let_def)

text \<open>
  Claim C6, amended. Let an attempt be in flight and let a chunk of four or more bytes
  arrive that fails the handshake (byte 0 is not \<open>0x20\<close>, byte 1 is below 2 or byte 3
  is nonzero). The chunk rejects the promise of the attempt with the broker-rejection
  error, leaves readiness false and leaves the pending handle in place. After any
  further sequence of \<open>connect()\<close>, \<open>publish()\<close> and \<open>end()\<close> calls and socket
  events that contains no close event, the handle still holds the rejected promise, and
  \<open>connect()\<close> returns it and changes nothing: no socket is opened. The close event of
  the socket, arriving after any such sequence, sets readiness to false and clears the
  handle. After the close event and any further sequence of calls and events without a
  \<open>connect()\<close> call the handle is still clear, and \<open>connect()\<close> then starts a fresh
  attempt: a new pending promise, not the rejected one, becomes the handle, and a new
  socket becomes \<open>this.socket\<close>.
\<close>

theorem handshake_failure_then_close:
  assumes "Connecting w s p" and "length chunk \<ge> 4"
    and "\<not> (chunk ! 0 = 0x20 \<and> chunk ! 1 \<ge> 0x02 \<and> chunk ! 3 = 0x00)"
    and "\<forall>st \<in> set before. \<not> is_close st"
    and "CallConnect \<notin> set after"
  shows "\<not> isReady (this (on_data s chunk w))
       \<and> connectPromise (this (on_data s chunk w)) = Some p
       \<and> promises (on_data s chunk w) ! p = Rejected BrokerRejected
       \<and> connectPromise (this (run_steps before (on_data s chunk w))) = Some p
       \<and> promises (run_steps before (on_data s chunk w)) ! p = Rejected BrokerRejected
       \<and> connect (run_steps before (on_data s chunk w))
           = (p, run_steps before (on_data s chunk w))
       \<and> length (sockets (run_steps before (on_data s chunk w))) = length (sockets w)
       \<and> \<not> isReady (this (on_close s (run_steps before (on_data s chunk w))))
       \<and> connectPromise (this (on_close s (run_steps before (on_data s chunk w)))) = None
       \<and> connectPromise (this (run_steps after (on_close s (run_steps before (on_data s chunk w)))))
           = None
       \<and> p < fst (connect (run_steps after (on_close s (run_steps before (on_data s chunk w)))))
       \<and> promises (snd (connect (run_steps after (on_close s (run_steps before (on_data s chunk w))))))
            ! fst (connect (run_steps after (on_close s (run_steps before (on_data s chunk w)))))
           = Pending
       \<and> connectPromise (this (snd (connect (run_steps after (on_close s (run_steps before (on_data s chunk w)))))))
           = Some (fst (connect (run_steps after (on_close s (run_steps before (on_data s chunk w))))))
       \<and> length (sockets (snd (connect (run_steps after (on_close s (run_steps before (on_data s chunk w)))))))
           = Suc (length (sockets (run_steps after (on_close s (run_steps before (on_data s chunk w))))))
       \<and> socket (this (snd (connect (run_steps after (on_close s (run_steps before (on_data s chunk w)))))))
           = Some (length (sockets (run_steps after (on_close s (run_steps before (on_data s chunk w))))))"
proof -
  have "on_data s chunk w = reject p BrokerRejected w"
    using assms(1,2,3) by (auto simp: Connecting_def on_data_def)
  then have d: "on_data s chunk w = w\<lparr>promises := (promises w)[p := Rejected BrokerRejected]\<rparr>"
    using assms(1) by (simp add: Connecting_def reject_def)
  have f: "\<not> isReady (this (on_data s chunk w))"
      "connectPromise (this (on_data s chunk w)) = Some p"
      "p < length (promises (on_data s chunk w))"
      "promises (on_data s chunk w) ! p = Rejected BrokerRejected"
      "length (promises (on_data s chunk w)) = length (promises w)"
      "length (sockets (on_data s chunk w)) = length (sockets w)"
    using assms(1) unfolding d by (simp_all add: Connecting_def)
  note b = run_keeps_stale[OF assms(4) f(2,3,4)]
  have cb: "connect (run_steps before (on_data s chunk w))
           = (p, run_steps before (on_data s chunk w))"
    using b by (simp add: connect_def)
  have sl: "s < length (sockets (run_steps before (on_data s chunk w)))"
    using b f(6) assms(1) by (simp add: Connecting_def)
  have c: "\<not> isReady (this (on_close s (run_steps before (on_data s chunk w))))"
      "connectPromise (this (on_close s (run_steps before (on_data s chunk w)))) = None"
      "length (promises (on_close s (run_steps before (on_data s chunk w)))) = length (promises w)"
    using sl b f(5) by (simp_all add: on_close_def)
  note a = run_keeps_clear[OF assms(5) c(2)]
  have a1: "connectPromise (this (run_steps after (on_close s (run_steps before (on_data s chunk w))))) = None"
    using a by simp
  note fr = connect_fresh[OF a1]
  have pl: "p < fst (connect (run_steps after (on_close s (run_steps before (on_data s chunk w)))))"
    using a fr(1) c(3) f(3,5) by simp
  have pend: "promises (snd (connect (run_steps after (on_close s (run_steps before (on_data s chunk w))))))
            ! fst (connect (run_steps after (on_close s (run_steps before (on_data s chunk w)))))
           = Pending"
    by (rule fr(2))
  show ?thesis
    using f(1,2,4) b cb f(6) c(1,2) a1 pl pend fr(3,4,5) by simp
qed

theorem handshake_failure_then_close_witness:
  "Connecting (snd (connect (new_SimpleMqttPublisher MQTT_URL ''sim-1''))) 0 0
   \<and> \<not> is_close (Emit 0 (Data [0x20, 0x02, 0x00, 0x00])) \<and> \<not> is_close CallConnect
   \<and> CallEnd \<noteq> CallConnect
   \<and> isReady (this (run_steps [Emit 0 (Data [0x20, 0x02, 0x00, 0x00]), CallConnect]
        (on_data 0 [0x20, 0x02, 0x00, 0x05] (snd (connect (new_SimpleMqttPublisher MQTT_URL ''sim-1''))))))
   \<and> connect (run_steps [Emit 0 (Data [0x20, 0x02, 0x00, 0x00]), CallConnect]
        (on_data 0 [0x20, 0x02, 0x00, 0x05] (snd (connect (new_SimpleMqttPublisher MQTT_URL ''sim-1'')))))
       = (0, run_steps [Emit 0 (Data [0x20, 0x02, 0x00, 0x00]), CallConnect]
        (on_data 0 [0x20, 0x02, 0x00, 0x05] (snd (connect (new_SimpleMqttPublisher MQTT_URL ''sim-1'')))))
   \<and> promises (run_steps [Emit 0 (Data [0x20, 0x02, 0x00, 0x00]), CallConnect]
        (on_data 0 [0x20, 0x02, 0x00, 0x05] (snd (connect (new_SimpleMqttPublisher MQTT_URL ''sim-1''))))) ! 0
       = Rejected BrokerRejected
   \<and> \<not> isReady (this (on_close 0 (run_steps [Emit 0 (Data [0x20, 0x02, 0x00, 0x00]), CallConnect]
        (on_data 0 [0x20, 0x02, 0x00, 0x05] (snd (connect (new_SimpleMqttPublisher MQTT_URL ''sim-1'')))))))
   \<and> connectPromise (this (on_close 0 (run_steps [Emit 0 (Data [0x20, 0x02, 0x00, 0x00]), CallConnect]
        (on_data 0 [0x20, 0x02, 0x00, 0x05] (snd (connect (new_SimpleMqttPublisher MQTT_URL ''sim-1''))))))) = None
   \<and> fst (connect (run_steps [CallEnd] (on_close 0 (run_steps [Emit 0 (Data [0x20, 0x02, 0x00, 0x00]), CallConnect]
        (on_data 0 [0x20, 0x02, 0x00, 0x05] (snd (connect (new_SimpleMqttPublisher MQTT_URL ''sim-1'')))))))) = 1
   \<and> length (sockets (snd (connect (run_steps [CallEnd] (on_close 0 (run_steps [Emit 0 (Data [0x20, 0x02, 0x00, 0x00]), CallConnect]
        (on_data 0 [0x20, 0x02, 0x00, 0x05] (snd (connect (new_SimpleMqttPublisher MQTT_URL ''sim-1''))))))))))
       = 2"
proof -
  have c: "Connecting (snd (connect (new_SimpleMqttPublisher MQTT_URL ''sim-1''))) 0 0"
    by (simp add: new_SimpleMqttPublisher_def connect_def Connecting_def Let_def)
  have b: "\<forall>st \<in> set [Emit 0 (Data [0x20, 0x02, 0x00, 0x00]), CallConnect]. \<not> is_close st"
    by simp
  have a: "CallConnect \<notin> set [CallEnd]"
    by simp
  have r: "isReady (this (run_steps [Emit 0 (Data [0x20, 0x02, 0x00, 0x00]), CallConnect]
        (on_data 0 [0x20, 0x02, 0x00, 0x05] (snd (connect (new_SimpleMqttPublisher MQTT_URL ''sim-1''))))))"
    by (simp add: new_SimpleMqttPublisher_def connect_def on_data_def resolve_def reject_def Let_def)
  have one: "fst (connect (run_steps [CallEnd] (on_close 0 (run_steps [Emit 0 (Data [0x20, 0x02, 0x00, 0x00]), CallConnect]
        (on_data 0 [0x20, 0x02, 0x00, 0x05] (snd (connect (new_SimpleMqttPublisher MQTT_URL ''sim-1'')))))))) = 1"
      "length (sockets (run_steps [CallEnd] (on_close 0 (run_steps [Emit 0 (Data [0x20, 0x02, 0x00, 0x00]), CallConnect]
        (on_data 0 [0x20, 0x02, 0x00, 0x05] (snd (connect (new_SimpleMqttPublisher MQTT_URL ''sim-1''))))))))
       = 1"
    by (simp_all add: new_SimpleMqttPublisher_def connect_def on_data_def resolve_def reject_def
          on_close_def end_connection_def socket_end_def Let_def)
  show ?thesis
    using c b a r one
      handshake_failure_then_close[OF c _ _ b a, of "[0x20, 0x02, 0x00, 0x05]"]
    by simp
qed

subsection \<open>The invariant of the connection\<close>

lemma inv_constructed: "connection_inv (new_SimpleMqttPublisher brokerUrl cid)"
  by (simp add: connection_inv_def new_SimpleMqttPublisher_def)

lemma inv_connect: "connection_inv w \<Longrightarrow> connection_inv (snd (connect w))"
proof (cases "connectPromise (this w)")
  case None
  assume i: "connection_inv w"
  then have all_closed: "\<And>i. i < length (sockets w) \<Longrightarrow> closed (sockets w ! i)"
    using None by (auto simp: connection_inv_def)
  have nr: "\<not> isReady (this w)"
  proof
    assume "isReady (this w)"
    then have "sockets w \<noteq> []" "\<not> closed (last (sockets w))"
      using i by (auto simp: connection_inv_def)
    then show False using all_closed[of "length (sockets w) - 1"]
      by (simp add: last_conv_nth)
  qed
  show ?thesis
    using None nr all_closed
    by (auto simp: connection_inv_def connect_def Let_def nth_append)
next
  case (Some p)
  assume "connection_inv w"
  then show ?thesis using Some by (simp add: connect_def)
qed

lemma inv_update_socket:
  assumes "connection_inv w"
    and "closed x = closed (sockets w ! s)" and "handshake x = handshake (sockets w ! s)"
  shows "connection_inv (w\<lparr>sockets := (sockets w)[s := x]\<rparr>)"
proof -
  have same: "closed ((sockets w)[s := x] ! i) = closed (sockets w ! i)
            \<and> handshake ((sockets w)[s := x] ! i) = handshake (sockets w ! i)"
    if "i < length (sockets w)" for i
    using that assms(2,3) by (cases "i = s") simp_all
  have lst: "closed (last ((sockets w)[s := x])) = closed (last (sockets w))"
    if "sockets w \<noteq> []"
    using that same[of "length (sockets w) - 1"] by (simp add: last_conv_nth)
  show ?thesis
    using assms(1) same lst by (simp add: connection_inv_def)
qed

lemma inv_socket_write: "connection_inv w \<Longrightarrow> connection_inv (socket_write s buf w)"
  by (simp add: socket_write_def inv_update_socket)

lemma inv_socket_end: "connection_inv w \<Longrightarrow> connection_inv (socket_end s w)"
  by (simp add: socket_end_def inv_update_socket)

lemma inv_publish: "connection_inv w \<Longrightarrow> connection_inv (snd (publish topic payload options w))"
  by (auto simp: publish_def inv_socket_write split: option.splits)

lemma inv_end: "connection_inv w \<Longrightarrow> connection_inv (end_connection w)"
  by (auto simp: end_connection_def inv_socket_end split: option.splits)

lemma inv_resolve: "connection_inv w \<Longrightarrow> connection_inv (resolve p w)"
  by (auto simp: connection_inv_def resolve_def)

lemma inv_reject: "connection_inv w \<Longrightarrow> connection_inv (reject p err w)"
  by (auto simp: connection_inv_def reject_def)

lemma inv_on_connect: "connection_inv w \<Longrightarrow> connection_inv (on_connect s w)"
proof -
  assume i: "connection_inv w"
  have "connection_inv (w\<lparr>sockets := (sockets w)[s := (sockets w ! s)\<lparr>onceConnect := False\<rparr>]\<rparr>)"
    using i by (simp add: inv_update_socket)
  then show ?thesis
    using i by (auto simp: on_connect_def Let_def inv_socket_write split: option.splits)
qed

lemma inv_on_error: "connection_inv w \<Longrightarrow> connection_inv (on_error s err w)"
proof -
  assume i: "connection_inv w"
  have a: "connection_inv (w\<lparr>sockets := (sockets w)[s := (sockets w ! s)\<lparr>onceError := False\<rparr>]\<rparr>)"
    using i by (simp add: inv_update_socket)
  have b: "connection_inv (v\<lparr>console := c\<rparr>)" if "connection_inv v" for v c
    using that by (simp add: connection_inv_def)
  show ?thesis
    using i a by (auto simp: on_error_def Let_def intro!: b inv_reject)
qed

lemma inv_on_data:
  assumes "connection_inv w" and "s < length (sockets w)" and "\<not> closed (sockets w ! s)"
  shows "connection_inv (on_data s chunk w)"
proof -
  have "Suc s = length (sockets w)"
    using assms by (auto simp: connection_inv_def)
  then have "sockets w \<noteq> []" and "length (sockets w) - 1 = s"
    by auto
  then have "last (sockets w) = sockets w ! s" "sockets w \<noteq> []"
    by (simp_all add: last_conv_nth)
  then have l: "sockets w \<noteq> []" "\<not> closed (last (sockets w))"
    using assms(3) by simp_all
  then have "connection_inv (w\<lparr>this := (this w)\<lparr>isReady := True\<rparr>\<rparr>)"
    using assms(1) by (simp add: connection_inv_def)
  then show ?thesis
    using assms(1) by (auto simp: on_data_def intro!: inv_resolve inv_reject)
qed

lemma inv_on_close:
  assumes "connection_inv w" and "s < length (sockets w)" and "\<not> closed (sockets w ! s)"
  shows "connection_inv (on_close s w)"
proof -
  have last: "Suc s = length (sockets w)"
    using assms by (auto simp: connection_inv_def)
  have "closed (sockets w ! i)" if "i < length (sockets w)" "i \<noteq> s" for i
    using that assms(1) last by (auto simp: connection_inv_def)
  then show ?thesis
    using assms(2) by (auto simp: connection_inv_def on_close_def nth_list_update)
qed

lemma reachable_inv: "reachable w \<Longrightarrow> connection_inv w"
proof (induction rule: reachable.induct)
  case (constructed brokerUrl cid)
  show ?case by (rule inv_constructed)
next
  case (call_connect w)
  then show ?case by (simp add: inv_connect)
next
  case (call_publish w topic payload options)
  then show ?case by (simp add: inv_publish)
next
  case (call_end w)
  then show ?case by (simp add: inv_end)
next
  case (socket_event w s ev)
  then show ?case
    by (cases ev) (simp_all add: inv_on_connect inv_on_error inv_on_data inv_on_close)
qed

text \<open>
  Claim C7. In every reachable runtime in which an attempt is in flight or the
  connection is ready, \<open>connect()\<close> returns the promise of that attempt and leaves the
  runtime as it was: no second socket is opened.
\<close>

theorem connect_idempotent:
  assumes "reachable w"
    and "isReady (this w) \<or> (\<exists>p. connectPromise (this w) = Some p \<and> promises w ! p = Pending)"
  shows "\<exists>p. connectPromise (this w) = Some p \<and> connect w = (p, w)"
proof -
  have "connectPromise (this w) \<noteq> None"
  proof (cases "isReady (this w)")
    case True
    have i: "connection_inv w" using assms(1) by (rule reachable_inv)
    with True have "sockets w \<noteq> []" "\<not> closed (last (sockets w))"
      by (auto simp: connection_inv_def)
    then have "length (sockets w) - 1 < length (sockets w)"
        "\<not> closed (sockets w ! (length (sockets w) - 1))"
      by (simp_all add: last_conv_nth)
    with i show ?thesis by (auto simp: connection_inv_def)
  next
    case False
    with assms(2) show ?thesis by auto
  qed
  then show ?thesis by (auto simp: connect_def)
qed


theorem connect_idempotent_witness:
  "reachable (emit 0 (Data [0x20, 0x02, 0x00, 0x00]) (snd (connect (new_SimpleMqttPublisher MQTT_URL ''sim-1''))))
   \<and> isReady (this (emit 0 (Data [0x20, 0x02, 0x00, 0x00]) (snd (connect (new_SimpleMqttPublisher MQTT_URL ''sim-1'')))))
   \<and> connect (emit 0 (Data [0x20, 0x02, 0x00, 0x00]) (snd (connect (new_SimpleMqttPublisher MQTT_URL ''sim-1''))))
       = (0, emit 0 (Data [0x20, 0x02, 0x00, 0x00]) (snd (connect (new_SimpleMqttPublisher MQTT_URL ''sim-1''))))"
proof -
  have r0: "reachable (new_SimpleMqttPublisher MQTT_URL ''sim-1'')"
    by (rule reachable.constructed)
  have r1: "reachable (snd (connect (new_SimpleMqttPublisher MQTT_URL ''sim-1'')))"
    by (rule reachable.call_connect[OF r0])
  have r2: "reachable (emit 0 (Data [0x20, 0x02, 0x00, 0x00]) (snd (connect (new_SimpleMqttPublisher MQTT_URL ''sim-1''))))"
    by (rule reachable.socket_event[OF r1])
       (simp_all add: new_SimpleMqttPublisher_def connect_def Let_def)
  have rdy: "isReady (this (emit 0 (Data [0x20, 0x02, 0x00, 0x00]) (snd (connect (new_SimpleMqttPublisher MQTT_URL ''sim-1'')))))"
    by (simp add: new_SimpleMqttPublisher_def connect_def on_data_def resolve_def Let_def)
  have cp: "connectPromise (this (emit 0 (Data [0x20, 0x02, 0x00, 0x00]) (snd (connect (new_SimpleMqttPublisher MQTT_URL ''sim-1''))))) = Some 0"
    by (simp add: new_SimpleMqttPublisher_def connect_def on_data_def resolve_def Let_def)
  show ?thesis
    using r2 rdy cp connect_idempotent[OF r2] by auto
qed




section \<open>Properties of the metric generator\<close>

subsection \<open>What one tick changes\<close>

lemma publishMetric_draws: "draws (snd (publishMetric metric w)) = draws w"
  by (auto simp: publishMetric_def defaultGenerator_def randomInRange_def Math_random_def Let_def
           split: option.splits prod.splits sum.splits)

lemma publishMetric_other:
  "k \<noteq> id' metric \<Longrightarrow> metricStates (snd (publishMetric metric w)) k = metricStates w k"
  by (auto simp: publishMetric_def defaultGenerator_def randomInRange_def Math_random_def Let_def
           split: option.splits prod.splits sum.splits)

lemma publishMetric_own:
  assumes "metricStates w (id' metric) = Some st"
  shows "\<exists>raw j. metricStates (snd (publishMetric metric w)) (id' metric)
           = Some \<lparr>value' = clamp raw (min' metric) (max' metric),
                   target = (if \<bar>clamp raw (min' metric) (max' metric) - target st\<bar> < smoothing metric * 5
                             then draws w j * (max' metric - min' metric) + min' metric
                             else target st)\<rparr>"
  using assms
  by (auto simp: publishMetric_def defaultGenerator_def randomInRange_def Math_random_def Let_def
           split: option.splits prod.splits sum.splits)


subsection \<open>Values and targets stay within the bounds\<close>

lemma clamp_range: "mn \<le> mx \<Longrightarrow> mn \<le> clamp v mn mx \<and> clamp v mn mx \<le> mx"
  by (simp add: clamp_def)

lemma draw_range:
  fixes u :: real
  assumes "0 \<le> u" and "u < 1" and "mn \<le> mx"
  shows "mn \<le> u * (mx - mn) + mn \<and> u * (mx - mn) + mn \<le> mx"
proof -
  have "0 \<le> u * (mx - mn)"
    using assms by simp
  moreover have "u * (mx - mn) \<le> 1 * (mx - mn)"
    using assms by (intro mult_right_mono) simp_all
  ultimately show ?thesis by simp
qed

lemma fromEntries_miss:
  "k \<notin> fst ` set es \<Longrightarrow> foldl (\<lambda>obj (k, v). obj(k \<mapsto> v)) obj es k = obj k"
  by (induction es arbitrary: obj) (auto split: prod.splits)

lemma fromEntries_hit:
  "distinct (map fst es) \<Longrightarrow> (k, v) \<in> set es \<Longrightarrow>
     foldl (\<lambda>obj (k, v). obj(k \<mapsto> v)) obj es k = Some v"
proof (induction es arbitrary: obj)
  case Nil
  then show ?case by simp
next
  case (Cons e es)
  show ?case
  proof (cases "e = (k, v)")
    case True
    then have "k \<notin> fst ` set es" using Cons.prems(1) by auto
    then have "foldl (\<lambda>obj (k, v). obj(k \<mapsto> v)) (obj(k \<mapsto> v)) es k = (obj(k \<mapsto> v)) k"
      by (rule fromEntries_miss)
    then show ?thesis unfolding True by (simp only: foldl_Cons prod.case fun_upd_same)
  next
    case False
    then have "(k, v) \<in> set es" using Cons.prems(2) by simp
    moreover have "distinct (map fst es)" using Cons.prems(1) by simp
    ultimately show ?thesis using Cons.IH by simp
  qed
qed

lemma initial_entries_draws: "draws (snd (initial_entries ms w)) = draws w"
  by (induction ms arbitrary: w)
     (simp_all add: randomInRange_def Math_random_def Let_def case_prod_beta)

lemma initial_entries_keys: "map fst (fst (initial_entries ms w)) = map id' ms"
  by (induction ms arbitrary: w)
     (simp_all add: randomInRange_def Math_random_def Let_def case_prod_beta)

lemma initial_entries_entry:
  "metric \<in> set ms \<Longrightarrow>
     \<exists>j. (id' metric, \<lparr>value' = min' metric,
                        target = draws w j * (max' metric - min' metric) + min' metric\<rparr>)
            \<in> set (fst (initial_entries ms w))"
proof (induction ms arbitrary: w)
  case Nil
  then show ?case by simp
next
  case (Cons m ms)
  show ?case
  proof (cases "metric = m")
    case True
    then show ?thesis
      by (auto simp: randomInRange_def Math_random_def Let_def case_prod_beta)
  next
    case False
    then have "metric \<in> set ms" using Cons.prems by simp
    from Cons.IH[OF this, of "w\<lparr>drawn := Suc (drawn w)\<rparr>"] show ?thesis
      by (auto simp: randomInRange_def Math_random_def Let_def case_prod_beta)
  qed
qed

lemma initial_metricStates_draws: "draws (initial_metricStates ms w) = draws w"
  using initial_entries_draws[of ms w]
  by (simp add: initial_metricStates_def Let_def case_prod_beta)

lemma initial_metricStates_entry:
  assumes "metric \<in> set ms" and "distinct (map id' ms)"
  shows "\<exists>j. metricStates (initial_metricStates ms w) (id' metric)
           = Some \<lparr>value' = min' metric,
                   target = draws w j * (max' metric - min' metric) + min' metric\<rparr>"
proof -
  obtain j where "(id' metric, \<lparr>value' = min' metric,
                        target = draws w j * (max' metric - min' metric) + min' metric\<rparr>)
            \<in> set (fst (initial_entries ms w))"
    using initial_entries_entry[OF assms(1)] by blast
  moreover have "distinct (map fst (fst (initial_entries ms w)))"
    using assms(2) by (simp add: initial_entries_keys)
  ultimately have "Object_fromEntries (fst (initial_entries ms w)) (id' metric)
           = Some \<lparr>value' = min' metric,
                   target = draws w j * (max' metric - min' metric) + min' metric\<rparr>"
    unfolding Object_fromEntries_def by (rule fromEntries_hit[rotated])
  then show ?thesis
    by (auto simp: initial_metricStates_def Let_def case_prod_beta)
qed

lemma publishMetric_in_range:
  assumes "in_range metric w" and "min' metric \<le> max' metric"
    and "\<forall>i. 0 \<le> draws w i \<and> draws w i < 1"
  shows "in_range metric (snd (publishMetric metric w))"
proof -
  obtain st where st: "metricStates w (id' metric) = Some st"
      "min' metric \<le> target st" "target st \<le> max' metric"
    using assms(1) by (auto simp: in_range_def)
  obtain raw j where
    "metricStates (snd (publishMetric metric w)) (id' metric)
           = Some \<lparr>value' = clamp raw (min' metric) (max' metric),
                   target = (if \<bar>clamp raw (min' metric) (max' metric) - target st\<bar> < smoothing metric * 5
                             then draws w j * (max' metric - min' metric) + min' metric
                             else target st)\<rparr>"
    using publishMetric_own[OF st(1)] by blast
  moreover have "min' metric \<le> draws w j * (max' metric - min' metric) + min' metric
      \<and> draws w j * (max' metric - min' metric) + min' metric \<le> max' metric"
    using assms(2,3) by (intro draw_range) simp_all
  ultimately show ?thesis
    using clamp_range[OF assms(2), of raw] st(2,3) by (simp add: in_range_def)
qed

lemma publishMetric_keeps_range:
  assumes "in_range metric w" and "min' metric \<le> max' metric"
    and "\<forall>i. 0 \<le> draws w i \<and> draws w i < 1"
    and "id' m = id' metric \<longrightarrow> m = metric"
  shows "in_range metric (snd (publishMetric m w))"
proof (cases "id' m = id' metric")
  case True
  then show ?thesis using assms publishMetric_in_range by simp
next
  case False
  then show ?thesis
    using assms(1) publishMetric_other[of "id' metric" m w] by (simp add: in_range_def)
qed

lemma run_timers_in_range:
  assumes "min' metric \<le> max' metric"
    and "\<forall>m \<in> set sched. id' m = id' metric \<longrightarrow> m = metric"
  shows "in_range metric w \<Longrightarrow> \<forall>i. 0 \<le> draws w i \<and> draws w i < 1 \<Longrightarrow>
           in_range metric (run_timers sched w)"
  using assms(2)
proof (induction sched arbitrary: w)
  case Nil
  then show ?case by simp
next
  case (Cons m rest)
  have step: "in_range metric (snd (publishMetric m w))"
    using Cons.prems assms(1) by (intro publishMetric_keeps_range) simp_all
  have dr: "\<forall>i. 0 \<le> draws (snd (publishMetric m w)) i \<and> draws (snd (publishMetric m w)) i < 1"
    using Cons.prems(2) by (simp add: publishMetric_draws)
  show ?case
  proof (cases "publishMetric m w")
    case (Pair r w1)
    then have w1: "in_range metric w1" "\<forall>i. 0 \<le> draws w1 i \<and> draws w1 i < 1"
      using step dr by simp_all
    show ?thesis
    proof (cases r)
      case (Inl e)
      then show ?thesis using Pair w1 by simp
    next
      case (Inr u)
      then show ?thesis using Pair w1 Cons.IH[of w1] Cons.prems(3) by simp
    qed
  qed
qed

lemma ids_distinct:
  assumes "distinct (map id' ms)" and "m \<in> set ms" and "n \<in> set ms" and "id' m = id' n"
  shows "m = n"
  using assms by (meson distinct_map inj_onD)


lemma metrics_distinct: "distinct (map id' metrics)"
  by (simp add: metrics_def plain_def)

lemma metrics_ordered: "\<forall>m \<in> set metrics. min' m \<le> max' m"
  by (simp add: metrics_def plain_def)

text \<open>
  Claim C8. Take the metric table with unique identifiers, a metric of it with
  \<open>min \<le> max\<close>, and draws of \<open>Math.random()\<close> in \<open>[0, 1)\<close>. Starting from the initial
  table (value \<open>min\<close>, target drawn in the range), after every run of timer callbacks of
  the table's metrics, in any order and of any length, the metric's value and target lie
  in \<open>[min, max]\<close>. And in one tick from any state: the stored value lies in
  \<open>[min, max]\<close>, and when it is closer than \<open>smoothing \<times> 5\<close> to the target, the new
  target is a fresh draw scaled into the range and lies in \<open>[min, max]\<close>.
\<close>

theorem clamping_invariant:
  assumes "metric \<in> set ms" and "distinct (map id' ms)" and "min' metric \<le> max' metric"
    and "\<forall>i. 0 \<le> draws w i \<and> draws w i < 1" and "set sched \<subseteq> set ms"
  shows "in_range metric (run_timers sched (initial_metricStates ms w))
       \<and> (metricStates v (id' metric) = Some st \<and> (\<forall>i. 0 \<le> draws v i \<and> draws v i < 1) \<longrightarrow>
            (\<exists>st'. metricStates (snd (publishMetric metric v)) (id' metric) = Some st'
               \<and> min' metric \<le> value' st' \<and> value' st' \<le> max' metric
               \<and> (\<bar>value' st' - target st\<bar> < smoothing metric * 5 \<longrightarrow>
                     (\<exists>j. target st' = draws v j * (max' metric - min' metric) + min' metric)
                   \<and> min' metric \<le> target st' \<and> target st' \<le> max' metric)))"
proof -
  obtain j where init: "metricStates (initial_metricStates ms w) (id' metric)
           = Some \<lparr>value' = min' metric,
                   target = draws w j * (max' metric - min' metric) + min' metric\<rparr>"
    using initial_metricStates_entry[OF assms(1,2)] by blast
  have "min' metric \<le> draws w j * (max' metric - min' metric) + min' metric
      \<and> draws w j * (max' metric - min' metric) + min' metric \<le> max' metric"
    using assms(3,4) by (intro draw_range) simp_all
  then have start: "in_range metric (initial_metricStates ms w)"
    using init assms(3) by (simp add: in_range_def)
  have own: "\<forall>m \<in> set sched. id' m = id' metric \<longrightarrow> m = metric"
    using assms(1,2,5) ids_distinct by blast
  have dr: "\<forall>i. 0 \<le> draws (initial_metricStates ms w) i \<and> draws (initial_metricStates ms w) i < 1"
    using assms(4) by (simp add: initial_metricStates_draws)
  have a: "in_range metric (run_timers sched (initial_metricStates ms w))"
    using run_timers_in_range[OF assms(3) own start dr] .
  have b: "\<exists>st'. metricStates (snd (publishMetric metric v)) (id' metric) = Some st'
               \<and> min' metric \<le> value' st' \<and> value' st' \<le> max' metric
               \<and> (\<bar>value' st' - target st\<bar> < smoothing metric * 5 \<longrightarrow>
                     (\<exists>j. target st' = draws v j * (max' metric - min' metric) + min' metric)
                   \<and> min' metric \<le> target st' \<and> target st' \<le> max' metric)"
    if st: "metricStates v (id' metric) = Some st" and d: "\<forall>i. 0 \<le> draws v i \<and> draws v i < 1"
  proof -
    obtain raw k where own: "metricStates (snd (publishMetric metric v)) (id' metric)
           = Some \<lparr>value' = clamp raw (min' metric) (max' metric),
                   target = (if \<bar>clamp raw (min' metric) (max' metric) - target st\<bar> < smoothing metric * 5
                             then draws v k * (max' metric - min' metric) + min' metric
                             else target st)\<rparr>"
      using publishMetric_own[OF st] by blast
    have "min' metric \<le> draws v k * (max' metric - min' metric) + min' metric
      \<and> draws v k * (max' metric - min' metric) + min' metric \<le> max' metric"
      using assms(3) d by (intro draw_range) simp_all
    then show ?thesis
      using own clamp_range[OF assms(3), of raw] by auto
  qed
  show ?thesis using a b by blast
qed

theorem clamping_invariant_witness:
  "metrics ! 2 \<in> set metrics \<and> distinct (map id' metrics) \<and> min' (metrics ! 2) \<le> max' (metrics ! 2)
   \<and> (\<forall>i. 0 \<le> draws example_simulator i \<and> draws example_simulator i < 1)
   \<and> set [metrics ! 2, metrics ! 15, metrics ! 2] \<subseteq> set metrics
   \<and> id' (metrics ! 2) = ''coolantTemp'' \<and> min' (metrics ! 2) = 70 \<and> max' (metrics ! 2) = 110
   \<and> in_range (metrics ! 2)
        (run_timers [metrics ! 2, metrics ! 15, metrics ! 2]
           (initial_metricStates metrics example_simulator))"
proof -
  have m: "metrics ! 2 \<in> set metrics" "metrics ! 15 \<in> set metrics"
    by (simp_all add: metrics_def)
  have r: "min' (metrics ! 2) \<le> max' (metrics ! 2)"
    using m(1) metrics_ordered by blast
  have d: "\<forall>i. 0 \<le> draws example_simulator i \<and> draws example_simulator i < 1"
    by (simp add: example_simulator_def)
  have s: "set [metrics ! 2, metrics ! 15, metrics ! 2] \<subseteq> set metrics"
    using m by simp
  have v: "id' (metrics ! 2) = ''coolantTemp'' \<and> min' (metrics ! 2) = 70 \<and> max' (metrics ! 2) = 110"
    by (simp add: metrics_def plain_def)
  show ?thesis
    using m(1) r d s v metrics_distinct clamping_invariant[OF m(1) metrics_distinct r d s]
    by blast
qed

subsection \<open>The default rule\<close>

text \<open>
  When \<open>Math.random()\<close> returns 0 the factor of the noise is exactly \<open>-0.5\<close>, the lower
  end of the interval: for coolantTemp at value 70 and target 90 the raw next value is
  \<open>70 + 20 \<times> 0.05 + (-0.5) \<times> 0.05 \<times> 40 \<times> 0.01\<close>, and since
  \<open>smoothing \<times> (max - min) \<times> 0.01\<close> is not zero no other factor gives this value.
\<close>

theorem default_rule_endpoint_counterexample:
  "generator (metrics ! 2) = None
   \<and> metricStates low_draw_simulator (id' (metrics ! 2)) = Some \<lparr>value' = 70, target = 90\<rparr>
   \<and> draws low_draw_simulator (drawn low_draw_simulator) = 0
   \<and> fst (defaultGenerator (metrics ! 2) 70 low_draw_simulator)
       = Inr (70 + (90 - 70) * smoothing (metrics ! 2)
                + (- 0.5) * smoothing (metrics ! 2) * (max' (metrics ! 2) - min' (metrics ! 2)) * 0.01)
   \<and> smoothing (metrics ! 2) * (max' (metrics ! 2) - min' (metrics ! 2)) * 0.01 \<noteq> 0"
  by (simp add: metrics_def plain_def low_draw_simulator_def example_simulator_def
        defaultGenerator_def Math_random_def Let_def)

text \<open>
  Claim C9, amended. For every metric without an override generator that has a state
  entry, when \<open>Math.random()\<close> returns a draw \<open>r\<close> with \<open>0 \<le> r < 1\<close>, the raw next
  value of the tick is \<open>current + (target - current) \<times> smoothing + noise\<close> with
  \<open>noise = u \<times> smoothing \<times> (max - min) \<times> 0.01\<close> and \<open>u = r - 0.5\<close>, so that
  \<open>-0.5 \<le> u < 0.5\<close>; the generator makes exactly this one draw, and the tick stores
  the raw value clamped into \<open>[min, max]\<close>.
\<close>

theorem default_rule:
  assumes "generator metric = None" and "metricStates w (id' metric) = Some st"
    and "0 \<le> draws w (drawn w) \<and> draws w (drawn w) < 1"
  shows "defaultGenerator metric (value' st) w
         = (Inr (value' st + (target st - value' st) * smoothing metric
                   + (draws w (drawn w) - 0.5) * smoothing metric * (max' metric - min' metric) * 0.01),
            w\<lparr>drawn := Suc (drawn w)\<rparr>)
     \<and> - 0.5 \<le> draws w (drawn w) - 0.5 \<and> draws w (drawn w) - 0.5 < 0.5
     \<and> map_option value' (metricStates (snd (publishMetric metric w)) (id' metric))
         = Some (clamp (value' st + (target st - value' st) * smoothing metric
                   + (draws w (drawn w) - 0.5) * smoothing metric * (max' metric - min' metric) * 0.01)
                   (min' metric) (max' metric))"
proof -
  have b: "- 0.5 \<le> draws w (drawn w) - 0.5 \<and> draws w (drawn w) - 0.5 < 0.5"
    using assms(3) by simp
  have g: "defaultGenerator metric (value' st) w
         = (Inr (value' st + (target st - value' st) * smoothing metric
                   + (draws w (drawn w) - 0.5) * smoothing metric * (max' metric - min' metric) * 0.01),
            w\<lparr>drawn := Suc (drawn w)\<rparr>)"
    using assms(2) by (simp add: defaultGenerator_def Math_random_def Let_def)
  have p: "map_option value' (metricStates (snd (publishMetric metric w)) (id' metric))
         = Some (clamp (value' st + (target st - value' st) * smoothing metric
                   + (draws w (drawn w) - 0.5) * smoothing metric * (max' metric - min' metric) * 0.01)
                   (min' metric) (max' metric))"
    using assms(1,2)
    by (auto simp: publishMetric_def g randomInRange_def Math_random_def Let_def split: prod.splits)
  show ?thesis using b g p by blast
qed

theorem default_rule_witness:
  "generator (metrics ! 2) = None
   \<and> metricStates quarter_draw_simulator (id' (metrics ! 2)) = Some \<lparr>value' = 70, target = 90\<rparr>
   \<and> 0 \<le> draws quarter_draw_simulator (drawn quarter_draw_simulator)
   \<and> draws quarter_draw_simulator (drawn quarter_draw_simulator) < 1
   \<and> defaultGenerator (metrics ! 2) 70 quarter_draw_simulator
       = (Inr (14199 / 200), quarter_draw_simulator\<lparr>drawn := 1\<rparr>)
   \<and> map_option value'
        (metricStates (snd (publishMetric (metrics ! 2) quarter_draw_simulator)) (id' (metrics ! 2)))
       = Some (14199 / 200)"
proof -
  have g: "generator (metrics ! 2) = None"
    by (simp add: metrics_def plain_def)
  have i: "metricStates quarter_draw_simulator (id' (metrics ! 2)) = Some \<lparr>value' = 70, target = 90\<rparr>"
    by (simp add: metrics_def plain_def quarter_draw_simulator_def)
  have d: "0 \<le> draws quarter_draw_simulator (drawn quarter_draw_simulator)
      \<and> draws quarter_draw_simulator (drawn quarter_draw_simulator) < 1"
    by (simp add: quarter_draw_simulator_def)
  have c: "min' (metrics ! 2) = 70" "max' (metrics ! 2) = 110" "smoothing (metrics ! 2) = 0.05"
    by (simp_all add: metrics_def plain_def)
  have q: "draws quarter_draw_simulator k = 1 / 4" "drawn quarter_draw_simulator = 0" for k
    by (simp_all add: quarter_draw_simulator_def example_simulator_def)
  show ?thesis
    using g i d default_rule[OF g i d]
    by (simp add: c q clamp_def)
qed

subsection \<open>A tick changes the state of its own metric only\<close>

text \<open>
  Claim C10. A tick of metric \<open>m\<close> leaves the state entry (value and target) of every
  metric \<open>n\<close> with another identifier as it was; two different metrics of the table
  have different identifiers.
\<close>

theorem publishMetric_frame:
  "(id' m \<noteq> id' n \<longrightarrow> metricStates (snd (publishMetric m w)) (id' n) = metricStates w (id' n))
   \<and> (m \<in> set metrics \<and> n \<in> set metrics \<and> m \<noteq> n \<longrightarrow>
        metricStates (snd (publishMetric m w)) (id' n) = metricStates w (id' n))"
proof -
  have "id' m \<noteq> id' n" if "m \<in> set metrics" "n \<in> set metrics" "m \<noteq> n"
    using that ids_distinct[OF metrics_distinct] by blast
  then show ?thesis
    using publishMetric_other[of "id' n" m w] by auto
qed


theorem publishMetric_frame_witness:
  "id' (metrics ! 2) \<noteq> id' (metrics ! 15)
   \<and> metrics ! 2 \<in> set metrics \<and> metrics ! 15 \<in> set metrics \<and> metrics ! 2 \<noteq> metrics ! 15
   \<and> metricStates (snd (publishMetric (metrics ! 2) (initial_metricStates metrics example_simulator)))
        (id' (metrics ! 15))
       = metricStates (initial_metricStates metrics example_simulator) (id' (metrics ! 15))"
proof -
  have a: "id' (metrics ! 2) \<noteq> id' (metrics ! 15)"
    by (simp add: metrics_def plain_def)
  then have b: "metrics ! 2 \<noteq> metrics ! 15" by auto
  have m: "metrics ! 2 \<in> set metrics" "metrics ! 15 \<in> set metrics"
    by (simp_all add: metrics_def)
  show ?thesis
    using a b m publishMetric_frame[of "metrics ! 2" "metrics ! 15"
        "initial_metricStates metrics example_simulator"]
    by blast
qed


end
